theory Spec2Isabelle
  imports Complex_Main "HOL-Library.AList"
begin

section \<open>Values of the parsed tree\<close>

text \<open>
  The casting module of glyphs2ufo (\<^verbatim>\<open>Lib/glyphs2ufo/casting.py\<close>) works on the untyped
  tree the parser hands over and on the values its converters produce. Both live in one
  dictionary that is mutated in place, so one type of values covers both.

  Conventions of the embedding:
  \<^item> The module is read as Python 3: \<^verbatim>\<open>map\<close> returns a lazy map object and a
    dictionary keeps insertion order. A dictionary is an association list; its keys are
    strings, as the field names of the tree are.
  \<^item> A string is a list of 8-bit characters, read as code points below 256.
  \<^item> Values are trees without sharing: no two fields hold the same mutable object. An
    in-place update of a nested record is the update of the enclosing value.
  \<^item> A raised exception is a result \<open>Inl e\<close>; the partly mutated tree is not observed
    after an exception.
  \<^item> \<^verbatim>\<open>assert\<close> statements are executed (the interpreter does not run with \<^verbatim>\<open>-O\<close>).
\<close>

datatype error =
    AssertionError | AttributeError | KeyError | OverflowError | TypeError | ValueError
  | Unmodelled
    \<comment> \<open>no Python exception: the outcome lies outside the values of this embedding\<close>

datatype pyfloat = Finite rat | Infinity bool | NaN
  \<comment> \<open>a finite double by its exact value (the sign of zero is dropped); \<open>Infinity True\<close> is \<open>-inf\<close>\<close>

datatype mapfn = FInt | FPoint | FNode
  \<comment> \<open>the functions this module passes to \<^verbatim>\<open>map\<close>: \<^verbatim>\<open>int\<close>, \<^verbatim>\<open>point\<close>, \<^verbatim>\<open>node\<close>\<close>

datatype pyval =
    VNone
  | VBool bool
  | VInt int
  | VFloat pyfloat
  | VStr string
  | VList "pyval list"
  | VDict "(string \<times> pyval) list"
  | VDatetime int int int int int int
    \<comment> \<open>year, month, day, hour, minute, second; microsecond 0 and no time zone\<close>
  | VMap mapfn pyval
    \<comment> \<open>a map object: the function and what is left of the iterable under it\<close>

type_synonym 'a result = "error + 'a"

definition raises :: "'a result \<Rightarrow> bool" where
  "raises r = (case r of Inl e \<Rightarrow> e \<noteq> Unmodelled | Inr _ \<Rightarrow> False)"

section \<open>Built-in conversions of Python\<close>

subsection \<open>Characters and digit strings\<close>

text \<open>
  The white space that \<^verbatim>\<open>int\<close> and \<^verbatim>\<open>float\<close> strip from a string: tab, line feed, vertical
  tab, form feed, carriage return and space, and, turned into spaces first, the code points
  85 and A0. The separators 1C to 1F are white space for \<^verbatim>\<open>str.isspace\<close> and for \<^verbatim>\<open>\s\<close> in a
  pattern, not here.
\<close>

definition is_space :: "char \<Rightarrow> bool" where
  "is_space c = (c \<in> set [CHR 0x09, CHR 0x0A, CHR 0x0B, CHR 0x0C, CHR 0x0D, CHR 0x20,
                            CHR 0x85, CHR 0xA0])"

definition is_digit :: "char \<Rightarrow> bool" where
  "is_digit c = (c \<in> set ''0123456789'')"

definition digit_val :: "char \<Rightarrow> int" where
  "digit_val c = of_char c - of_char CHR ''0''"

definition strip :: "string \<Rightarrow> string" where
  "strip s = rev (dropWhile is_space (rev (dropWhile is_space s)))"

text \<open>
  A run of decimal digits in which single underscores may stand between two digits
  (PEP 515), for the digits \<open>isd\<close> of the base. \<open>after_digit\<close> reads on after a digit;
  both return the digits read and the rest of the string.
\<close>

fun after_digit :: "(char \<Rightarrow> bool) \<Rightarrow> string \<Rightarrow> string \<times> string" where
  "after_digit isd [] = ([], [])"
| "after_digit isd [c] = (if isd c then ([c], []) else ([], [c]))"
| "after_digit isd (c # d # cs) =
     (if isd c then (case after_digit isd (d # cs) of (ds, r) \<Rightarrow> (c # ds, r))
      else if c = CHR ''_'' \<and> isd d then (case after_digit isd cs of (ds, r) \<Rightarrow> (d # ds, r))
      else ([], c # d # cs))"

definition digit_run :: "(char \<Rightarrow> bool) \<Rightarrow> string \<Rightarrow> string \<times> string" where
  "digit_run isd s =
     (case s of [] \<Rightarrow> ([], [])
      | c # cs \<Rightarrow> if isd c then (case after_digit isd cs of (ds, r) \<Rightarrow> (c # ds, r))
                 else ([], s))"

definition digitpart :: "string \<Rightarrow> string \<times> string" where
  "digitpart s = digit_run is_digit s"

definition int_of_digits :: "string \<Rightarrow> int" where
  "int_of_digits ds = foldl (\<lambda>n c. 10 * n + digit_val c) 0 ds"

definition split_sign :: "string \<Rightarrow> bool \<times> string" where
  "split_sign s = (case s of [] \<Rightarrow> (False, [])
                   | c # cs \<Rightarrow> if c = CHR ''-'' then (True, cs)
                              else if c = CHR ''+'' then (False, cs) else (False, s))"

subsection \<open>\<^verbatim>\<open>int(x)\<close> and \<^verbatim>\<open>float(x)\<close>\<close>

text \<open>
  A string is stripped of white space; a sign may come first; the digits follow, to the
  end. Only the digits \<^verbatim>\<open>0\<close> to \<^verbatim>\<open>9\<close> are digits here, and the limit that Python 3.11 puts
  on the number of digits is left out.
\<close>

definition int_of_string :: "string \<Rightarrow> int result" where
  "int_of_string s =
     (case split_sign (strip s) of (neg, body) \<Rightarrow>
        (case digitpart body of (ds, r) \<Rightarrow>
           if ds = [] \<or> r \<noteq> [] then Inl ValueError
           else Inr (if neg then - int_of_digits ds else int_of_digits ds)))"

definition truncate :: "rat \<Rightarrow> int" where
  "truncate q = (if 0 \<le> q then \<lfloor>q\<rfloor> else \<lceil>q\<rceil>)"

fun py_int :: "pyval \<Rightarrow> int result" where
  "py_int (VStr s) = int_of_string s"
| "py_int (VInt n) = Inr n"
| "py_int (VBool b) = Inr (if b then 1 else 0)"
| "py_int (VFloat (Finite q)) = Inr (truncate q)"
| "py_int (VFloat (Infinity _)) = Inl OverflowError"
| "py_int (VFloat NaN) = Inl ValueError"
| "py_int _ = Inl TypeError"

text \<open>
  The double nearest to the fraction \<open>p / q\<close> (\<open>q > 0\<close>), ties to the even significand:
  \<open>lg\<close> is the binary logarithm of the fraction rounded down, \<open>e\<close> the exponent of the
  last place of a 53-bit significand (not below that of the subnormal numbers).
  \<open>None\<close> is the overflow to infinity.
\<close>

function nbits :: "int \<Rightarrow> int" where
  "nbits n = (if n \<le> 0 then 0 else 1 + nbits (n div 2))"
  by pat_completeness auto
termination
  by (relation "measure nat") auto

declare nbits.simps [simp del]

definition round_double :: "int \<Rightarrow> int \<Rightarrow> rat option" where
  "round_double p q =
     (if p = 0 then Some 0
      else
        let d = nbits p - nbits q;
            lg = (if q * 2 ^ nat d \<le> p * 2 ^ nat (- d) then d else d - 1);
            e = max (lg - 52) (- 1074);
            a = p * 2 ^ nat (- e);
            b = q * 2 ^ nat e;
            m = a div b;
            r = a mod b;
            m' = (if 2 * r < b \<or> (2 * r = b \<and> even m) then m else m + 1);
            v = (of_int (m' * 2 ^ nat e) / of_int (2 ^ nat (- e)) :: rat)
        in if 2 ^ 1024 \<le> v then None else Some v)"

definition signed_double :: "bool \<Rightarrow> int \<Rightarrow> int \<Rightarrow> pyfloat" where
  "signed_double neg p q =
     (case round_double p q of None \<Rightarrow> Infinity neg
      | Some v \<Rightarrow> Finite (if neg then - v else v))"

definition lower :: "char \<Rightarrow> char" where
  "lower c = (let n = (of_char c :: nat) in if 65 \<le> n \<and> n \<le> 90 then char_of (n + 32) else c)"

text \<open>
  The exponent part of a decimal literal: nothing, or \<^verbatim>\<open>e\<close> with an optional sign and
  digits up to the end of the string.
\<close>

definition exponent_part :: "string \<Rightarrow> int result" where
  "exponent_part s =
     (case s of [] \<Rightarrow> Inr 0
      | c # r \<Rightarrow>
          if lower c = CHR ''e'' then
            (case split_sign r of (eneg, eb) \<Rightarrow>
               (case digitpart eb of (ed, r3) \<Rightarrow>
                  if ed = [] \<or> r3 \<noteq> [] then Inl ValueError
                  else Inr (if eneg then - int_of_digits ed else int_of_digits ed)))
          else Inl ValueError)"

definition float_of_string :: "string \<Rightarrow> pyfloat result" where
  "float_of_string s =
     (case split_sign (strip s) of (neg, body) \<Rightarrow>
        if map lower body \<in> set [''inf'', ''infinity''] then Inr (Infinity neg)
        else if map lower body = ''nan'' then Inr NaN
        else
          (case digitpart body of (ip, r1) \<Rightarrow>
             (case (case r1 of [] \<Rightarrow> ([], r1)
                    | c # r \<Rightarrow> if c = CHR ''.'' then digitpart r else ([], r1)) of
                (fp, r2) \<Rightarrow>
                  if ip @ fp = [] then Inl ValueError
                  else
                    (case exponent_part r2 of Inl e \<Rightarrow> Inl e
                     | Inr ex \<Rightarrow>
                         let k = ex - int (length fp); n = int_of_digits (ip @ fp)
                         in Inr (signed_double neg (n * 10 ^ nat k) (10 ^ nat (- k)))))))"

fun py_float :: "pyval \<Rightarrow> pyfloat result" where
  "py_float (VStr s) = float_of_string s"
| "py_float (VInt n) =
     (case round_double \<bar>n\<bar> 1 of None \<Rightarrow> Inl OverflowError
      | Some v \<Rightarrow> Inr (Finite (if n < 0 then - v else v)))"
| "py_float (VBool b) = Inr (Finite (if b then 1 else 0))"
| "py_float (VFloat f) = Inr f"
| "py_float _ = Inl TypeError"

text \<open>\<^verbatim>\<open>int_val == val\<close> between an int and a float compares the exact values.\<close>

fun int_eq_float :: "int \<Rightarrow> pyfloat \<Rightarrow> bool" where
  "int_eq_float n (Finite q) = (of_int n = q)"
| "int_eq_float n _ = False"

subsection \<open>\<^verbatim>\<open>re.match\<close>\<close>

text \<open>
  The patterns of this module and of \<^verbatim>\<open>strptime\<close> use literals, character classes, a
  greedy \<^verbatim>\<open>+\<close> on a character class, alternatives, an optional group and numbered
  groups. \<open>rx_match r s c\<close> lists, in the order in which the backtracking matcher of
  \<^verbatim>\<open>re\<close> tries them, the ways \<open>r\<close> matches a prefix of \<open>s\<close>: what is left of \<open>s\<close> and the
  groups captured so far (the latest capture of a group first).
\<close>

datatype regex =
    Lit string
  | Cls "char list"
  | ClsPlus "char list"
  | Seq regex regex
  | Alt regex regex
  | Opt regex
  | Grp nat regex

type_synonym captures = "(nat \<times> string) list"

fun rx_match :: "regex \<Rightarrow> string \<Rightarrow> captures \<Rightarrow> (string \<times> captures) list" where
  "rx_match (Lit l) s c = (if take (length l) s = l then [(drop (length l) s, c)] else [])"
| "rx_match (Cls cs) s c = (case s of [] \<Rightarrow> [] | x # r \<Rightarrow> if x \<in> set cs then [(r, c)] else [])"
| "rx_match (ClsPlus cs) s c =
     map (\<lambda>n. (drop n s, c)) (rev [1..<Suc (length (takeWhile (\<lambda>x. x \<in> set cs) s))])"
| "rx_match (Seq a b) s c = concat (map (\<lambda>(s', c'). rx_match b s' c') (rx_match a s c))"
| "rx_match (Alt a b) s c = rx_match a s c @ rx_match b s c"
| "rx_match (Opt a) s c = rx_match a s c @ [(s, c)]"
| "rx_match (Grp n a) s c =
     map (\<lambda>(s', c'). (s', (n, take (length s - length s') s) # c')) (rx_match a s c)"

definition seqs :: "regex list \<Rightarrow> regex" where
  "seqs rs = foldr Seq rs (Lit [])"

text \<open>
  \<^verbatim>\<open>re.match(rx, string)\<close>: the first way to match at the start of the string, as what
  is left of the string and the captures; \<open>groups n\<close> is \<^verbatim>\<open>.groups()\<close> of a pattern with
  \<open>n\<close> groups, a group that took no part being \<open>None\<close>.
\<close>

definition re_match :: "regex \<Rightarrow> string \<Rightarrow> (string \<times> captures) option" where
  "re_match rx s = (case rx_match rx s [] of [] \<Rightarrow> None | m # _ \<Rightarrow> Some m)"

definition groups :: "nat \<Rightarrow> captures \<Rightarrow> string option list" where
  "groups n c = map (map_of c) [1..<Suc n]"

section \<open>The field converters\<close>

definition default :: "pyval \<Rightarrow> pyval result" where
  "default v = Inr v"

definition truthy :: "pyval \<Rightarrow> pyval result" where
  "truthy string = (case py_int string of Inl e \<Rightarrow> Inl e | Inr n \<Rightarrow> Inr (VBool (n \<noteq> 0)))"

definition num :: "pyval \<Rightarrow> pyval result" where
  "num string =
     (case py_float string of Inl e \<Rightarrow> Inl e
      | Inr val \<Rightarrow>
          (case py_int (VFloat val) of Inl e \<Rightarrow> Inl e
           | Inr int_val \<Rightarrow> Inr (if int_eq_float int_val val then VInt int_val else VFloat val)))"

text \<open>The class \<^verbatim>\<open>[-.e\d]\<close> and the pattern \<^verbatim>\<open>([-.e\d]+)\<close> as group \<open>i\<close>.\<close>

definition numchars :: "char list" where
  "numchars = ''-.e0123456789''"

definition numgroup :: "nat \<Rightarrow> regex" where
  "numgroup i = Grp i (ClsPlus numchars)"

fun join :: "'a \<Rightarrow> 'a list \<Rightarrow> 'a list" where
  "join sep [] = []"
| "join sep [x] = [x]"
| "join sep (x # y # xs) = x # sep # join sep (y # xs)"

definition vector_rx :: "nat \<Rightarrow> regex" where
  "vector_rx dimension =
     seqs ([Lit ''{''] @ join (Lit '', '') (map numgroup [1..<Suc dimension]) @ [Lit ''}''])"

fun nums :: "string option list \<Rightarrow> pyval list result" where
  "nums [] = Inr []"
| "nums (g # gs) =
     (case (case g of None \<Rightarrow> num VNone | Some i \<Rightarrow> num (VStr i)) of Inl e \<Rightarrow> Inl e
      | Inr x \<Rightarrow> (case nums gs of Inl e \<Rightarrow> Inl e | Inr xs \<Rightarrow> Inr (x # xs)))"

fun vector :: "pyval \<Rightarrow> nat \<Rightarrow> pyval result" where
  "vector (VStr string) dimension =
     (case re_match (vector_rx dimension) string of None \<Rightarrow> Inl AttributeError
      | Some (_, c) \<Rightarrow>
          (case nums (groups dimension c) of Inl e \<Rightarrow> Inl e | Inr xs \<Rightarrow> Inr (VList xs)))"
| "vector _ dimension = Inl TypeError"

definition point :: "pyval \<Rightarrow> pyval result" where
  "point string = vector string 2"

definition transform :: "pyval \<Rightarrow> pyval result" where
  "transform string = vector string 6"

definition node_rx :: regex where
  "node_rx =
     seqs [numgroup 1, Lit '' '', numgroup 2, Lit '' '',
           Grp 3 (Alt (Lit ''LINE'') (Alt (Lit ''CURVE'') (Lit ''OFFCURVE''))),
           Opt (Seq (Lit '' '') (Grp 4 (Lit ''SMOOTH'')))]"

definition str_or_none :: "string option \<Rightarrow> pyval" where
  "str_or_none g = (case g of None \<Rightarrow> VNone | Some s \<Rightarrow> VStr s)"

fun node :: "pyval \<Rightarrow> pyval result" where
  "node (VStr string) =
     (case re_match node_rx string of None \<Rightarrow> Inl AttributeError
      | Some (_, c) \<Rightarrow>
          (case num (str_or_none (map_of c 1)) of Inl e \<Rightarrow> Inl e
           | Inr x \<Rightarrow>
               (case num (str_or_none (map_of c 2)) of Inl e \<Rightarrow> Inl e
                | Inr y \<Rightarrow>
                    Inr (VList [x, y, str_or_none (map_of c 3), str_or_none (map_of c 4)]))))"
| "node _ = Inl TypeError"

definition descender_val :: "pyval \<Rightarrow> pyval result" where
  "descender_val string =
     (case py_int string of Inl e \<Rightarrow> Inl e
      | Inr n \<Rightarrow> if n < 0 then Inr (VInt n) else Inl AssertionError)"

definition version_minor :: "pyval \<Rightarrow> pyval result" where
  "version_minor string =
     (case py_int string of Inl e \<Rightarrow> Inl e
      | Inr n \<Rightarrow> if n \<ge> 0 \<and> n \<le> 999 then Inr (VInt n) else Inl AssertionError)"


subsection \<open>\<^verbatim>\<open>datetime.strptime\<close> with the format \<^verbatim>\<open>%Y-%m-%d %H:%M:%S\<close>\<close>

text \<open>
  \<^verbatim>\<open>_strptime\<close> turns the format into the pattern
  \<^verbatim>\<open>(?P<Y>\d\d\d\d)-(?P<m>1[0-2]|0[1-9]|[1-9])-(?P<d>3[0-1]|[1-2]\d|0[1-9]|[1-9]| [1-9])\s+\<close>
  \<^verbatim>\<open>(?P<H>2[0-3]|[0-1]\d|\d):(?P<M>[0-5]\d|\d):(?P<S>6[0-1]|[0-5]\d|\d)\<close>,
  matches it at the start of the string and refuses a match that leaves text over; the
  date and the time are then checked by the constructor of \<^verbatim>\<open>datetime\<close>. Every failure is
  a \<^verbatim>\<open>ValueError\<close>.
\<close>

fun alts :: "regex list \<Rightarrow> regex" where
  "alts [] = Lit []"
| "alts [r] = r"
| "alts (r # rs) = Alt r (alts rs)"

definition digit :: regex where
  "digit = Cls ''0123456789''"

definition strptime_rx :: regex where
  "strptime_rx =
     seqs [Grp 1 (seqs [digit, digit, digit, digit]), Lit ''-'',
           Grp 2 (alts [Seq (Lit ''1'') (Cls ''012''), Seq (Lit ''0'') (Cls ''123456789''),
                        Cls ''123456789'']),
           Lit ''-'',
           Grp 3 (alts [Seq (Lit ''3'') (Cls ''01''), Seq (Cls ''12'') digit,
                        Seq (Lit ''0'') (Cls ''123456789''), Cls ''123456789'',
                        Seq (Lit '' '') (Cls ''123456789'')]),
           ClsPlus [CHR 0x09, CHR 0x0A, CHR 0x0B, CHR 0x0C, CHR 0x0D,
                    CHR 0x1C, CHR 0x1D, CHR 0x1E, CHR 0x1F, CHR 0x20, CHR 0x85, CHR 0xA0],
           Grp 4 (alts [Seq (Lit ''2'') (Cls ''0123''), Seq (Cls ''01'') digit, digit]),
           Lit '':'',
           Grp 5 (alts [Seq (Cls ''012345'') digit, digit]),
           Lit '':'',
           Grp 6 (alts [Seq (Lit ''6'') (Cls ''01''), Seq (Cls ''012345'') digit, digit])]"

fun group_ints :: "captures \<Rightarrow> nat list \<Rightarrow> int list result" where
  "group_ints c [] = Inr []"
| "group_ints c (i # is) =
     (case (case map_of c i of None \<Rightarrow> Inl TypeError | Some g \<Rightarrow> int_of_string g) of
        Inl e \<Rightarrow> Inl e
      | Inr n \<Rightarrow> (case group_ints c is of Inl e \<Rightarrow> Inl e | Inr ns \<Rightarrow> Inr (n # ns)))"

definition days_in_month :: "int \<Rightarrow> int \<Rightarrow> int" where
  "days_in_month year month =
     (if month = 2 then
        (if year mod 4 = 0 \<and> (year mod 100 \<noteq> 0 \<or> year mod 400 = 0) then 29 else 28)
      else if month \<in> {4, 6, 9, 11} then 30 else 31)"

definition strptime :: "string \<Rightarrow> pyval result" where
  "strptime data_string =
     (case re_match strptime_rx data_string of None \<Rightarrow> Inl ValueError
      | Some (rest, c) \<Rightarrow>
          if rest \<noteq> [] then Inl ValueError
          else
            (case group_ints c [1, 2, 3, 4, 5, 6] of Inl e \<Rightarrow> Inl e
             | Inr [year, month, day, hour, minute, second] \<Rightarrow>
                 if year < 1 \<or> days_in_month year month < day \<or> 59 < second
                 then Inl ValueError
                 else Inr (VDatetime year month day hour minute second)
             | Inr _ \<Rightarrow> Inl ValueError))"

text \<open>\<^verbatim>\<open>string.rfind(c)\<close> and the slice \<^verbatim>\<open>string[:i]\<close>, for any integer \<open>i\<close>.\<close>

definition rfind :: "string \<Rightarrow> char \<Rightarrow> int" where
  "rfind s c = (let r = dropWhile (\<lambda>x. x \<noteq> c) (rev s)
                in if r = [] then - 1 else int (length r) - 1)"

definition slice_to :: "string \<Rightarrow> int \<Rightarrow> string" where
  "slice_to s i = (if i < 0 then take (nat (int (length s) + i)) s else take (nat i) s)"

fun glyphs_datetime :: "pyval \<Rightarrow> pyval result" where
  "glyphs_datetime (VStr string) = strptime (slice_to string (rfind string CHR '' ''))"
| "glyphs_datetime _ = Inl AttributeError"

subsection \<open>Iteration and map objects\<close>

definition int_conv :: "pyval \<Rightarrow> pyval result" where
  "int_conv v = (case py_int v of Inl e \<Rightarrow> Inl e | Inr n \<Rightarrow> Inr (VInt n))"

fun apply_mapfn :: "mapfn \<Rightarrow> pyval \<Rightarrow> pyval result" where
  "apply_mapfn FInt v = int_conv v"
| "apply_mapfn FPoint v = point v"
| "apply_mapfn FNode v = node v"

text \<open>
  A loop over an iterable sees one outcome per step: the next element, or the exception
  raised while it was computed, after which nothing follows. \<open>py_iter v\<close> lists these
  outcomes; it is a \<^verbatim>\<open>TypeError\<close> for a value that cannot be iterated. A string gives
  its characters, a dictionary its keys, a map object the function applied to the
  outcomes of the iterable under it.
\<close>

fun map_outcomes :: "mapfn \<Rightarrow> pyval result list \<Rightarrow> pyval result list" where
  "map_outcomes f [] = []"
| "map_outcomes f (Inl e # os) = [Inl e]"
| "map_outcomes f (Inr x # os) =
     (case apply_mapfn f x of Inl e \<Rightarrow> [Inl e] | Inr y \<Rightarrow> Inr y # map_outcomes f os)"

fun py_iter :: "pyval \<Rightarrow> pyval result list result" where
  "py_iter (VStr s) = Inr (map (\<lambda>c. Inr (VStr [c])) s)"
| "py_iter (VList xs) = Inr (map Inr xs)"
| "py_iter (VDict kvs) = Inr (map (\<lambda>kv. Inr (VStr (fst kv))) kvs)"
| "py_iter (VMap f src) =
     (case py_iter src of Inl e \<Rightarrow> Inl e | Inr os \<Rightarrow> Inr (map_outcomes f os))"
| "py_iter _ = Inl TypeError"

text \<open>
  \<^verbatim>\<open>map(f, v)\<close> asks \<open>v\<close> for an iterator at once and computes nothing else before the map
  object is iterated.
\<close>

definition iterable :: "pyval \<Rightarrow> bool" where
  "iterable v =
     (case v of VStr _ \<Rightarrow> True | VList _ \<Rightarrow> True | VDict _ \<Rightarrow> True | VMap _ _ \<Rightarrow> True
      | _ \<Rightarrow> False)"

definition py_map :: "mapfn \<Rightarrow> pyval \<Rightarrow> pyval result" where
  "py_map f v = (if iterable v then Inr (VMap f v) else Inl TypeError)"

fun collect :: "'a result list \<Rightarrow> 'a list result" where
  "collect [] = Inr []"
| "collect (Inl e # os) = Inl e"
| "collect (Inr x # os) = (case collect os of Inl e \<Rightarrow> Inl e | Inr xs \<Rightarrow> Inr (x # xs))"

text \<open>The container \<open>x\<close> after a loop has run over it and left the elements \<open>rs\<close> behind:
  a list holds its (mutated) elements, a map object is used up.\<close>

fun after_loop :: "pyval \<Rightarrow> pyval list \<Rightarrow> pyval" where
  "after_loop (VList xs) rs = VList rs"
| "after_loop (VMap f src) rs = VMap f (after_loop src [])"
| "after_loop (VStr s) rs = VStr s"
| "after_loop (VDict kvs) rs = VDict kvs"
| "after_loop v rs = v"

subsection \<open>\<^verbatim>\<open>str\<close>, \<^verbatim>\<open>list\<close>, \<^verbatim>\<open>dict\<close> as converters; subscripts\<close>

function decimal :: "int \<Rightarrow> string" where
  "decimal n = (if n < 10 then [char_of (48 + n)]
                else decimal (n div 10) @ [char_of (48 + n mod 10)])"
  by pat_completeness auto
termination
  by (relation "measure nat") auto

declare decimal.simps [simp del]

text \<open>
  \<^verbatim>\<open>str(x)\<close> of a float, a list, a dictionary, a date or a map object is the text of its
  \<^verbatim>\<open>repr\<close>, which is not modelled; \<^verbatim>\<open>dict(x)\<close> of a non-empty list or map object builds
  keys that need not be strings, and \<^verbatim>\<open>dict(x)\<close> of a non-empty string fails, its elements
  having one character and not two.
\<close>

fun py_str :: "pyval \<Rightarrow> pyval result" where
  "py_str (VStr s) = Inr (VStr s)"
| "py_str (VInt n) = Inr (VStr (if n < 0 then CHR ''-'' # decimal (- n) else decimal n))"
| "py_str (VBool b) = Inr (VStr (if b then ''True'' else ''False''))"
| "py_str VNone = Inr (VStr ''None'')"
| "py_str _ = Inl Unmodelled"

definition py_list :: "pyval \<Rightarrow> pyval result" where
  "py_list v =
     (case py_iter v of Inl e \<Rightarrow> Inl e
      | Inr os \<Rightarrow> (case collect os of Inl e \<Rightarrow> Inl e | Inr xs \<Rightarrow> Inr (VList xs)))"

fun py_dict :: "pyval \<Rightarrow> pyval result" where
  "py_dict (VDict kvs) = Inr (VDict kvs)"
| "py_dict (VStr s) = (if s = [] then Inr (VDict []) else Inl ValueError)"
| "py_dict (VList xs) = (if xs = [] then Inr (VDict []) else Inl Unmodelled)"
| "py_dict (VMap f src) = Inl Unmodelled"
| "py_dict _ = Inl TypeError"

text \<open>\<^verbatim>\<open>key in data\<close>, \<^verbatim>\<open>data[key]\<close> and \<^verbatim>\<open>data[key] = v\<close> for a string \<open>key\<close>. The membership
  test on a map object would use the object up; it is not modelled.\<close>

fun is_substring :: "string \<Rightarrow> string \<Rightarrow> bool" where
  "is_substring k [] = (k = [])"
| "is_substring k (c # cs) = (take (length k) (c # cs) = k \<or> is_substring k cs)"

fun contains :: "pyval \<Rightarrow> string \<Rightarrow> bool result" where
  "contains (VDict kvs) key = Inr (map_of kvs key \<noteq> None)"
| "contains (VList xs) key = Inr (VStr key \<in> set xs)"
| "contains (VStr s) key = Inr (is_substring key s)"
| "contains (VMap f src) key = Inl Unmodelled"
| "contains _ key = Inl TypeError"

fun getitem :: "pyval \<Rightarrow> string \<Rightarrow> pyval result" where
  "getitem (VDict kvs) key = (case map_of kvs key of None \<Rightarrow> Inl KeyError | Some v \<Rightarrow> Inr v)"
| "getitem _ key = Inl TypeError"

fun setitem :: "pyval \<Rightarrow> string \<Rightarrow> pyval \<Rightarrow> pyval result" where
  "setitem (VDict kvs) key v = Inr (VDict (AList.update key v kvs))"
| "setitem _ key v = Inl TypeError"

text \<open>The object \<^verbatim>\<open>data[key]\<close> is mutated by \<open>f\<close>; \<open>data\<close> holds the result.\<close>

definition modify :: "pyval \<Rightarrow> string \<Rightarrow> (pyval \<Rightarrow> pyval result) \<Rightarrow> pyval result" where
  "modify data key f =
     (case getitem data key of Inl e \<Rightarrow> Inl e
      | Inr x \<Rightarrow> (case f x of Inl e \<Rightarrow> Inl e | Inr x' \<Rightarrow> setitem data key x'))"

fun items :: "pyval \<Rightarrow> (string \<times> pyval) list result" where
  "items (VDict kvs) = Inr kvs"
| "items _ = Inl AttributeError"

section \<open>The remaining converters\<close>

definition is_hexdigit :: "char \<Rightarrow> bool" where
  "is_hexdigit c = (c \<in> set ''0123456789abcdefABCDEF'')"

definition hex_val :: "char \<Rightarrow> int" where
  "hex_val c = (if is_digit c then digit_val c else of_char (lower c) - 87)"

text \<open>\<^verbatim>\<open>int(string, 16)\<close>: a prefix \<^verbatim>\<open>0x\<close> and one underscore after it may come first.\<close>

definition skip_0x :: "string \<Rightarrow> string" where
  "skip_0x body =
     (case body of
        c # x # r \<Rightarrow>
          if c = CHR ''0'' \<and> lower x = CHR ''x'' then
            (case r of [] \<Rightarrow> r | u # r' \<Rightarrow> if u = CHR ''_'' then r' else r)
          else body
      | _ \<Rightarrow> body)"

fun hex_int :: "pyval \<Rightarrow> pyval result" where
  "hex_int (VStr string) =
     (case split_sign (strip string) of (neg, body) \<Rightarrow>
        (case digit_run is_hexdigit (skip_0x body) of (ds, r) \<Rightarrow>
           if ds = [] \<or> r \<noteq> [] then Inl ValueError
           else let n = foldl (\<lambda>n c. 16 * n + hex_val c) 0 ds
                in Inr (VInt (if neg then - n else n))))"
| "hex_int _ = Inl TypeError"

definition intlist :: "pyval \<Rightarrow> pyval result" where
  "intlist strlist = py_map FInt strlist"

definition pointlist :: "pyval \<Rightarrow> pyval result" where
  "pointlist strlist = py_map FPoint strlist"

definition nodelist :: "pyval \<Rightarrow> pyval result" where
  "nodelist strlist = py_map FNode strlist"

text \<open>The loops of \<^verbatim>\<open>kerning\<close>, innermost first, with \<^verbatim>\<open>new_data\<close> as their state.\<close>

fun kerning_right :: "string \<Rightarrow> string \<Rightarrow> (string \<times> pyval) list \<Rightarrow> pyval \<Rightarrow> pyval result" where
  "kerning_right master_id left_glyph [] new_data = Inr new_data"
| "kerning_right master_id left_glyph ((right_glyph, v) # rest) new_data =
     (case py_int v of Inl e \<Rightarrow> Inl e
      | Inr n \<Rightarrow>
          (case modify new_data master_id
                  (\<lambda>a. modify a left_glyph (\<lambda>b. setitem b right_glyph (VInt n))) of
             Inl e \<Rightarrow> Inl e
           | Inr new_data' \<Rightarrow> kerning_right master_id left_glyph rest new_data'))"

fun kerning_left :: "string \<Rightarrow> (string \<times> pyval) list \<Rightarrow> pyval \<Rightarrow> pyval result" where
  "kerning_left master_id [] new_data = Inr new_data"
| "kerning_left master_id ((left_glyph, glyph_map) # rest) new_data =
     (case modify new_data master_id (\<lambda>a. setitem a left_glyph (VDict [])) of
        Inl e \<Rightarrow> Inl e
      | Inr new_data1 \<Rightarrow>
          (case items glyph_map of Inl e \<Rightarrow> Inl e
           | Inr gm \<Rightarrow>
               (case kerning_right master_id left_glyph gm new_data1 of Inl e \<Rightarrow> Inl e
                | Inr new_data2 \<Rightarrow> kerning_left master_id rest new_data2)))"

fun kerning_master :: "(string \<times> pyval) list \<Rightarrow> pyval \<Rightarrow> pyval result" where
  "kerning_master [] new_data = Inr new_data"
| "kerning_master ((master_id, master_map) # rest) new_data =
     (case setitem new_data master_id (VDict []) of Inl e \<Rightarrow> Inl e
      | Inr new_data1 \<Rightarrow>
          (case items master_map of Inl e \<Rightarrow> Inl e
           | Inr mm \<Rightarrow>
               (case kerning_left master_id mm new_data1 of Inl e \<Rightarrow> Inl e
                | Inr new_data2 \<Rightarrow> kerning_master rest new_data2)))"

definition kerning :: "pyval \<Rightarrow> pyval result" where
  "kerning kerning_data =
     (case items kerning_data of Inl e \<Rightarrow> Inl e | Inr km \<Rightarrow> kerning_master km (VDict []))"

text \<open>\<^verbatim>\<open>string.replace(old, new)\<close>: the occurrences of \<open>old\<close> from the left, none overlapping.\<close>

fun replace :: "string \<Rightarrow> string \<Rightarrow> string \<Rightarrow> string" where
  "replace old new [] = (if old = [] then new else [])"
| "replace old new (c # cs) =
     (if old = [] then new @ c # replace old new cs
      else if take (length old) (c # cs) = old
      then new @ replace old new (drop (length old - 1) cs)
      else c # replace old new cs)"

definition replacements :: "(string \<times> string) list" where
  "replacements =
     [(CHR 0x5C # ''012'', [CHR 0x0A]), (CHR 0x5C # ''011'', [CHR 0x09]),
      (CHR 0x5C # ''U2018'', [CHR 0x27]), (CHR 0x5C # ''U2019'', [CHR 0x27]),
      (CHR 0x5C # ''U201C'', [CHR 0x22]), (CHR 0x5C # ''U201D'', [CHR 0x22])]"

fun feature_syntax :: "pyval \<Rightarrow> pyval result" where
  "feature_syntax (VStr string) =
     Inr (VStr (foldl (\<lambda>s (escaped, unescaped). replace escaped unescaped s) string replacements))"
| "feature_syntax (VDatetime y m d H M S) = Inl TypeError"
| "feature_syntax _ = Inl AttributeError"

section \<open>The schema and the caster\<close>

text \<open>
  A schema maps a field name to a converter (a callable) or to a sub-schema (a
  dictionary), which stands for a sequence of records. \<^verbatim>\<open>type(cur_type) == dict\<close>
  tells the two apart.
\<close>

datatype schema = Conv "pyval \<Rightarrow> pyval result" | Sub "(string \<times> schema) list"

definition DEFAULTS :: "(string \<times> pyval) list" where
  "DEFAULTS =
     [(''interpolationWeight'', VInt 100),
      (''interpolationWidth'', VInt 100),
      (''widthValue'', VInt 100),
      (''weightValue'', VInt 100)]"

definition get_type_structure :: "(string \<times> schema) list" where
  "get_type_structure =
     [(''DisplayStrings'', Conv py_list),
      (''classes'', Sub
         [(''automatic'', Conv truthy),
          (''code'', Conv feature_syntax),
          (''name'', Conv py_str)]),
      (''copyright'', Conv py_str),
      (''customParameters'', Sub
         [(''name'', Conv py_str),
          (''value'', Conv default)]),
      (''date'', Conv glyphs_datetime),
      (''designer'', Conv py_str),
      (''designerURL'', Conv py_str),
      (''disablesAutomaticAlignment'', Conv truthy),
      (''disablesNiceNames'', Conv truthy),
      (''familyName'', Conv py_str),
      (''featurePrefixes'', Sub
         [(''code'', Conv feature_syntax),
          (''name'', Conv py_str)]),
      (''features'', Sub
         [(''automatic'', Conv truthy),
          (''code'', Conv feature_syntax),
          (''disabled'', Conv truthy),
          (''name'', Conv py_str),
          (''notes'', Conv feature_syntax)]),
      (''fontMaster'', Sub
         [(''alignmentZones'', Conv pointlist),
          (''ascender'', Conv int_conv),
          (''capHeight'', Conv int_conv),
          (''customParameters'', Sub
             [(''name'', Conv py_str),
              (''value'', Conv default)]),
          (''descender'', Conv descender_val),
          (''horizontalStems'', Conv intlist),
          (''id'', Conv py_str),
          (''userData'', Conv py_dict),
          (''verticalStems'', Conv intlist),
          (''weight'', Conv py_str),
          (''weightValue'', Conv int_conv),
          (''width'', Conv py_str),
          (''widthValue'', Conv int_conv),
          (''xHeight'', Conv int_conv)]),
      (''glyphs'', Sub
         [(''glyphname'', Conv py_str),
          (''lastChange'', Conv glyphs_datetime),
          (''layers'', Sub
             [(''anchors'', Sub
                 [(''name'', Conv py_str),
                  (''position'', Conv point)]),
              (''annotations'', Conv default),
              (''associatedMasterId'', Conv py_str),
              (''background'', Conv default),
              (''components'', Sub
                 [(''anchor'', Conv py_str),
                  (''disableAlignment'', Conv truthy),
                  (''locked'', Conv truthy),
                  (''name'', Conv py_str),
                  (''transform'', Conv transform)]),
              (''guideLines'', Conv default),
              (''hints'', Conv default),
              (''layerId'', Conv py_str),
              (''leftMetricsKey'', Conv py_str),
              (''rightMetricsKey'', Conv py_str),
              (''name'', Conv py_str),
              (''paths'', Sub
                 [(''closed'', Conv truthy),
                  (''nodes'', Conv nodelist)]),
              (''width'', Conv num)]),
          (''leftKerningGroup'', Conv py_str),
          (''leftMetricsKey'', Conv py_str),
          (''rightKerningGroup'', Conv py_str),
          (''rightMetricsKey'', Conv py_str),
          (''unicode'', Conv hex_int),
          (''widthMetricsKey'', Conv py_str)]),
      (''instances'', Sub
         [(''customParameters'', Sub
             [(''name'', Conv py_str),
              (''value'', Conv default)]),
          (''interpolationWeight'', Conv int_conv),
          (''interpolationWidth'', Conv int_conv),
          (''name'', Conv py_str),
          (''weightClass'', Conv py_str),
          (''widthClass'', Conv py_str)]),
      (''kerning'', Conv kerning),
      (''manufacturer'', Conv py_str),
      (''manufacturerURL'', Conv py_str),
      (''unitsPerEm'', Conv int_conv),
      (''userData'', Conv py_dict),
      (''versionMajor'', Conv int_conv),
      (''versionMinor'', Conv version_minor)]"

text \<open>
  The loop of \<^verbatim>\<open>cast_data\<close> over \<^verbatim>\<open>types.items()\<close>, with \<open>data\<close> as its state, and the
  loop over the records of a sub-schema field, which sees the outcomes of iterating
  \<^verbatim>\<open>data[key]\<close> and casts every record with the sub-schema.
\<close>

fun cast_fields :: "(string \<times> schema) list \<Rightarrow> pyval \<Rightarrow> pyval result"
  and cast_records :: "(string \<times> schema) list \<Rightarrow> pyval result list \<Rightarrow> pyval list result"
where
  "cast_fields [] data = Inr data"
| "cast_fields ((key, cur_type) # types) data =
     (case contains data key of Inl e \<Rightarrow> Inl e
      | Inr False \<Rightarrow>
          (case map_of DEFAULTS key of None \<Rightarrow> cast_fields types data
           | Some d \<Rightarrow>
               (case setitem data key d of Inl e \<Rightarrow> Inl e
                | Inr data' \<Rightarrow> cast_fields types data'))
      | Inr True \<Rightarrow>
          (case getitem data key of Inl e \<Rightarrow> Inl e
           | Inr x \<Rightarrow>
               (case cur_type of
                  Sub sub \<Rightarrow>
                    (case py_iter x of Inl e \<Rightarrow> Inl e
                     | Inr os \<Rightarrow>
                         (case cast_records sub os of Inl e \<Rightarrow> Inl e
                          | Inr rs \<Rightarrow>
                              (case setitem data key (after_loop x rs) of Inl e \<Rightarrow> Inl e
                               | Inr data' \<Rightarrow> cast_fields types data')))
                | Conv f \<Rightarrow>
                    (case f x of Inl e \<Rightarrow> Inl e
                     | Inr y \<Rightarrow>
                         (case setitem data key y of Inl e \<Rightarrow> Inl e
                          | Inr data' \<Rightarrow> cast_fields types data')))))"
| "cast_records sub [] = Inr []"
| "cast_records sub (Inl e # os) = Inl e"
| "cast_records sub (Inr cur_data # os) =
     (case cast_fields sub cur_data of Inl e \<Rightarrow> Inl e
      | Inr r \<Rightarrow> (case cast_records sub os of Inl e \<Rightarrow> Inl e | Inr rs \<Rightarrow> Inr (r # rs)))"

definition cast_data :: "pyval \<Rightarrow> (string \<times> schema) list option \<Rightarrow> pyval result" where
  "cast_data data types =
     cast_fields (case types of None \<Rightarrow> get_type_structure | Some t \<Rightarrow> t) data"



section \<open>Notions used in the statements\<close>

text \<open>A number as \<^verbatim>\<open>num\<close> returns it: an int or a finite float.\<close>

definition is_number :: "pyval \<Rightarrow> bool" where
  "is_number v = (case v of VInt _ \<Rightarrow> True | VFloat (Finite _) \<Rightarrow> True | _ \<Rightarrow> False)"

text \<open>
  A coordinate token of a node: a string, not empty, of the characters that the class
  \<^verbatim>\<open>[-.e\d]\<close> of the pattern accepts.
\<close>

definition is_token :: "string \<Rightarrow> bool" where
  "is_token X = (X \<noteq> [] \<and> set X \<subseteq> set numchars)"

text \<open>
  A kerning grid with leaves of type \<open>'a\<close>, master id to left glyph to right glyph, and the
  dictionary of dictionaries it stands for when \<open>leaf\<close> turns a leaf into a value. The keys
  of a dictionary are distinct at every level. \<open>is_int_string\<close> holds for the strings
  that \<^verbatim>\<open>int\<close> accepts, and \<open>int_value\<close> is their value.
\<close>

type_synonym 'a grid = "(string \<times> (string \<times> (string \<times> 'a) list) list) list"

definition leaves_val :: "('a \<Rightarrow> pyval) \<Rightarrow> (string \<times> 'a) list \<Rightarrow> (string \<times> pyval) list" where
  "leaves_val leaf gm = map (\<lambda>(right_glyph, v). (right_glyph, leaf v)) gm"

definition master_val ::
  "('a \<Rightarrow> pyval) \<Rightarrow> (string \<times> (string \<times> 'a) list) list \<Rightarrow> (string \<times> pyval) list" where
  "master_val leaf mm = map (\<lambda>(left_glyph, gm). (left_glyph, VDict (leaves_val leaf gm))) mm"

definition grid_val :: "('a \<Rightarrow> pyval) \<Rightarrow> 'a grid \<Rightarrow> pyval" where
  "grid_val leaf g = VDict (map (\<lambda>(master_id, mm). (master_id, VDict (master_val leaf mm))) g)"

definition grid_leaves :: "'a grid \<Rightarrow> 'a list" where
  "grid_leaves g = concat (map (\<lambda>(master_id, mm). concat (map (\<lambda>(left_glyph, gm). map snd gm) mm)) g)"

definition distinct_keys :: "'a grid \<Rightarrow> bool" where
  "distinct_keys g =
     (distinct (map fst g) \<and>
      list_all (\<lambda>(master_id, mm). distinct (map fst mm) \<and>
                  list_all (\<lambda>(left_glyph, gm). distinct (map fst gm)) mm) g)"

definition is_int_string :: "string \<Rightarrow> bool" where
  "is_int_string s = (case int_of_string s of Inl _ \<Rightarrow> False | Inr _ \<Rightarrow> True)"

definition int_value :: "string \<Rightarrow> int" where
  "int_value s = (case int_of_string s of Inl _ \<Rightarrow> 0 | Inr n \<Rightarrow> n)"

section \<open>Evaluations used below\<close>

lemma int_of_string_minus_10: "int_of_string ''-10'' = Inr (- 10)"
  by code_simp

lemma int_of_string_500: "int_of_string ''500'' = Inr 500"
  by code_simp

lemma descender_val_minus_10: "descender_val (VStr ''-10'') = Inr (VInt (- 10))"
  by code_simp

lemma descender_val_10: "descender_val (VStr ''10'') = Inl AssertionError"
  by code_simp

lemma version_minor_500: "version_minor (VStr ''500'') = Inr (VInt 500)"
  by code_simp

lemma version_minor_1000: "version_minor (VStr ''1000'') = Inl AssertionError"
  by code_simp

section \<open>The validated integers\<close>

text \<open>
  C5. For a string that \<^verbatim>\<open>int\<close> accepts, with value \<open>n\<close>, \<^verbatim>\<open>descender_val\<close> returns \<open>n\<close>
  when \<open>n\<close> is strictly negative and fails with an assertion error when \<open>n \<ge> 0\<close>;
  \<^verbatim>\<open>descender_val("-10")\<close> is \<open>-10\<close> and \<^verbatim>\<open>descender_val("10")\<close> fails.
\<close>

theorem descender_val_range:
  "(int_of_string s = Inr n \<longrightarrow>
      descender_val (VStr s) = (if n < 0 then Inr (VInt n) else Inl AssertionError))
   \<and> descender_val (VStr ''-10'') = Inr (VInt (- 10))
   \<and> descender_val (VStr ''10'') = Inl AssertionError"
proof -
  have "int_of_string s = Inr n \<longrightarrow>
      descender_val (VStr s) = (if n < 0 then Inr (VInt n) else Inl AssertionError)"
    by (simp add: descender_val_def)
  then show ?thesis
    using descender_val_minus_10 descender_val_10 by blast
qed

theorem descender_val_range_witness:
  "int_of_string ''-10'' = Inr (- 10)
   \<and> descender_val (VStr ''-10'') = (if (- 10 :: int) < 0 then Inr (VInt (- 10)) else Inl AssertionError)"
  using descender_val_range [of "''-10''" "- 10"] int_of_string_minus_10 by simp

text \<open>
  C6. For a string that \<^verbatim>\<open>int\<close> accepts, with value \<open>n\<close>, \<^verbatim>\<open>version_minor\<close> returns \<open>n\<close>
  when \<open>0 \<le> n \<le> 999\<close> and fails with an assertion error otherwise;
  \<^verbatim>\<open>version_minor("500")\<close> is \<open>500\<close> and \<^verbatim>\<open>version_minor("1000")\<close> fails.
\<close>

theorem version_minor_range:
  "(int_of_string s = Inr n \<longrightarrow>
      version_minor (VStr s) = (if 0 \<le> n \<and> n \<le> 999 then Inr (VInt n) else Inl AssertionError))
   \<and> version_minor (VStr ''500'') = Inr (VInt 500)
   \<and> version_minor (VStr ''1000'') = Inl AssertionError"
proof -
  have "int_of_string s = Inr n \<longrightarrow>
      version_minor (VStr s) = (if 0 \<le> n \<and> n \<le> 999 then Inr (VInt n) else Inl AssertionError)"
    by (simp add: version_minor_def)
  then show ?thesis
    using version_minor_500 version_minor_1000 by blast
qed

theorem version_minor_range_witness:
  "int_of_string ''500'' = Inr 500
   \<and> version_minor (VStr ''500'') =
       (if (0 :: int) \<le> 500 \<and> (500 :: int) \<le> 999 then Inr (VInt 500) else Inl AssertionError)"
  using version_minor_range [of "''500''" 500] int_of_string_500 by simp

section \<open>Numbers\<close>

lemma float_of_string_error: "float_of_string s = Inl e \<Longrightarrow> e = ValueError"
  by (auto simp: float_of_string_def exponent_part_def Let_def
           split: prod.splits if_splits sum.splits list.splits)

lemma py_float_error: "py_float v = Inl e \<Longrightarrow> e \<in> {ValueError, OverflowError, TypeError}"
  by (cases v) (auto dest: float_of_string_error split: option.splits)

lemma py_int_float_error: "py_int (VFloat f) = Inl e \<Longrightarrow> e \<in> {ValueError, OverflowError}"
  by (cases f) auto

lemma num_error: "num v = Inl e \<Longrightarrow> e \<in> {ValueError, OverflowError, TypeError}"
  by (auto simp: num_def split: sum.splits dest: py_float_error py_int_float_error)

lemma num_not_Unmodelled: "num v \<noteq> Inl Unmodelled"
  using num_error [of v Unmodelled] by auto

lemma num_number: "num v = Inr x \<Longrightarrow> is_number x"
  apply (auto simp: num_def is_number_def split: sum.splits if_splits)
  subgoal for f by (cases f) auto
  done

section \<open>The ways a pattern matches\<close>

lemma in_Seq: "(r, c') \<in> set (rx_match (Seq a b) s c) \<longleftrightarrow>
   (\<exists>s1 c1. (s1, c1) \<in> set (rx_match a s c) \<and> (r, c') \<in> set (rx_match b s1 c1))"
  by auto

lemma in_Grp: "(r, c') \<in> set (rx_match (Grp n a) s c) \<longleftrightarrow>
   (\<exists>c1. (r, c1) \<in> set (rx_match a s c) \<and> c' = (n, take (length s - length r) s) # c1)"
  by auto

lemma in_Lit: "(r, c') \<in> set (rx_match (Lit l) s c) \<longleftrightarrow> (s = l @ r \<and> c' = c)"
  by (auto simp: append_eq_conv_conj) (metis append_take_drop_id)

lemma in_ClsPlus: "(r, c') \<in> set (rx_match (ClsPlus cs) s c) \<Longrightarrow> c' = c"
  by auto

lemma in_Alt: "(r, c') \<in> set (rx_match (Alt a b) s c) \<longleftrightarrow>
   (r, c') \<in> set (rx_match a s c) \<or> (r, c') \<in> set (rx_match b s c)"
  by auto

lemma in_Opt: "(r, c') \<in> set (rx_match (Opt a) s c) \<longleftrightarrow>
   (r, c') \<in> set (rx_match a s c) \<or> (r = s \<and> c' = c)"
  by auto

lemma re_match_in: "re_match rx s = Some m \<Longrightarrow> m \<in> set (rx_match rx s [])"
  by (auto simp: re_match_def split: list.splits)

lemma in_ClsPlus_token:
  assumes "(r, c') \<in> set (rx_match (ClsPlus cs) s c)"
  shows "\<exists>X. s = X @ r \<and> X \<noteq> [] \<and> set X \<subseteq> set cs \<and> c' = c"
proof -
  from assms obtain n where n: "1 \<le> n" "n \<le> length (takeWhile (\<lambda>x. x \<in> set cs) s)"
    and r: "r = drop n s" and c: "c' = c"
    by auto
  let ?X = "take n s"
  from n have len: "n \<le> length s"
    using length_takeWhile_le [of "\<lambda>x. x \<in> set cs" s] by linarith
  have "?X = take n (takeWhile (\<lambda>x. x \<in> set cs) s)"
    using n(2) by (metis takeWhile_dropWhile_id take_append diff_is_0_eq take_0 append_Nil2)
  then have "set ?X \<subseteq> set (takeWhile (\<lambda>x. x \<in> set cs) s)"
    by (metis set_take_subset)
  then have sub: "set ?X \<subseteq> set cs"
    using set_takeWhileD by fastforce
  from n(1) len have "?X \<noteq> []" by auto
  with r c sub show ?thesis by (metis append_take_drop_id)
qed

lemma concat_map_Nil: "(\<And>x. x \<in> set xs \<Longrightarrow> f x = []) \<Longrightarrow> concat (map f xs) = []"
  by (induction xs) auto

lemma takeWhile_token:
  "set X \<subseteq> set cs \<Longrightarrow> CHR '' '' \<notin> set cs \<Longrightarrow>
   takeWhile (\<lambda>x. x \<in> set cs) (X @ CHR '' '' # s') = X"
  by (induction X) auto

lemma token_then_space:
  assumes X: "X \<noteq> []" "set X \<subseteq> set cs" and sp: "CHR '' '' \<notin> set cs"
  shows "rx_match (Seq (Grp i (ClsPlus cs)) (Seq (Lit '' '') r)) (X @ CHR '' '' # s') c =
         rx_match r s' ((i, X) # c)"
proof -
  let ?s = "X @ CHR '' '' # s'"
  let ?k = "length X"
  let ?f = "\<lambda>n. rx_match (Seq (Lit '' '') r) (drop n ?s) ((i, take (length ?s - length (drop n ?s)) ?s) # c)"
  from X(1) have k: "0 < ?k" by simp
  have list: "rev [1..<Suc ?k] = ?k # rev [1..<?k]"
    using k by (simp add: upt_rec [of 1 "Suc (length X)"] upt_conv_Cons)
       (metis Suc_leI k le_add_diff_inverse plus_1_eq_Suc upt_Suc_append rev.simps(2) rev_append
              append_Nil rev_singleton_conv)
  have small: "\<And>n. n \<in> set (rev [1..<?k]) \<Longrightarrow> ?f n = []"
  proof -
    fix n assume "n \<in> set (rev [1..<?k])"
    then have n: "n < ?k" by auto
    then have "drop n ?s = drop n X @ CHR '' '' # s'" by simp
    moreover from n obtain y ys where "drop n X = y # ys"
      by (metis drop_eq_Nil2 neq_Nil_conv not_le)
    moreover from this have "y \<in> set X" by (metis in_set_dropD list.set_intros(1))
    with X(2) sp have "y \<noteq> CHR '' ''" by auto
    ultimately show "?f n = []" by simp
  qed
  have big: "?f ?k = rx_match r s' ((i, X) # c)" by simp
  have "rx_match (Seq (Grp i (ClsPlus cs)) (Seq (Lit '' '') r)) ?s c = concat (map ?f (rev [1..<Suc ?k]))"
    using takeWhile_token [OF X(2) sp, of s']
    by (simp add: comp_def del: upt_Suc)
  also have "\<dots> = ?f ?k @ concat (map ?f (rev [1..<?k]))"
    unfolding list by simp
  also have "\<dots> = rx_match r s' ((i, X) # c)"
    using big concat_map_Nil [of "rev [1..<?k]" ?f, OF small] by simp
  finally show ?thesis .
qed

lemma seq_token:
  assumes "(r, c') \<in> set (rx_match (Seq (Grp i (ClsPlus cs)) R) s c)"
  shows "\<exists>X s1 c1. s = X @ s1 \<and> X \<noteq> [] \<and> set X \<subseteq> set cs \<and> (r, c') \<in> set (rx_match R s1 c1)"
proof -
  from assms obtain s1 c1 where a: "(s1, c1) \<in> set (rx_match (Grp i (ClsPlus cs)) s c)"
    and b: "(r, c') \<in> set (rx_match R s1 c1)"
    unfolding in_Seq by blast
  from a obtain c0 where "(s1, c0) \<in> set (rx_match (ClsPlus cs) s c)"
    unfolding in_Grp by blast
  from in_ClsPlus_token [OF this] b show ?thesis by blast
qed

lemma seq_lit:
  assumes "(r, c') \<in> set (rx_match (Seq (Lit l) R) s c)"
  shows "\<exists>s1. s = l @ s1 \<and> (r, c') \<in> set (rx_match R s1 c)"
  using assms unfolding in_Seq in_Lit by blast

lemma seq_type:
  assumes "(r, c') \<in> set (rx_match (Seq (Grp i (Alt (Lit a) (Alt (Lit b) (Lit d)))) R) s c)"
  shows "\<exists>T s1 c1. s = T @ s1 \<and> T \<in> {a, b, d} \<and> (r, c') \<in> set (rx_match R s1 c1)"
  using assms unfolding in_Seq in_Grp in_Alt in_Lit by blast

lemma node_rx_unfold:
  "node_rx =
     Seq (Grp 1 (ClsPlus numchars)) (Seq (Lit '' '') (Seq (Grp 2 (ClsPlus numchars))
       (Seq (Lit '' '') (Seq (Grp 3 (Alt (Lit ''LINE'') (Alt (Lit ''CURVE'') (Lit ''OFFCURVE''))))
         (Seq (Opt (Seq (Lit '' '') (Grp 4 (Lit ''SMOOTH'')))) (Lit []))))))"
  by (simp add: node_rx_def seqs_def numgroup_def)

lemma node_rx_match_form:
  assumes "re_match node_rx s = Some m"
  shows "\<exists>X Y T rest. s = X @ '' '' @ Y @ '' '' @ T @ rest \<and> is_token X \<and> is_token Y \<and>
           T \<in> {''LINE'', ''CURVE'', ''OFFCURVE''}"
proof -
  obtain r c where m: "m = (r, c)" by (cases m)
  from re_match_in [OF assms] have "(r, c) \<in> set (rx_match node_rx s [])" by (simp add: m)
  then have 0: "(r, c) \<in> set (rx_match
      (Seq (Grp 1 (ClsPlus numchars)) (Seq (Lit '' '') (Seq (Grp 2 (ClsPlus numchars))
        (Seq (Lit '' '') (Seq (Grp 3 (Alt (Lit ''LINE'') (Alt (Lit ''CURVE'') (Lit ''OFFCURVE''))))
          (Seq (Opt (Seq (Lit '' '') (Grp 4 (Lit ''SMOOTH'')))) (Lit []))))))) s [])"
    by (simp only: node_rx_unfold)
  from seq_token [OF 0] obtain X s1 c1 where X: "s = X @ s1" "X \<noteq> []" "set X \<subseteq> set numchars"
    and 1: "(r, c) \<in> set (rx_match (Seq (Lit '' '') (Seq (Grp 2 (ClsPlus numchars))
        (Seq (Lit '' '') (Seq (Grp 3 (Alt (Lit ''LINE'') (Alt (Lit ''CURVE'') (Lit ''OFFCURVE''))))
          (Seq (Opt (Seq (Lit '' '') (Grp 4 (Lit ''SMOOTH'')))) (Lit [])))))) s1 c1)"
    by blast
  from seq_lit [OF 1] obtain s2 where s2: "s1 = '' '' @ s2"
    and 2: "(r, c) \<in> set (rx_match (Seq (Grp 2 (ClsPlus numchars))
        (Seq (Lit '' '') (Seq (Grp 3 (Alt (Lit ''LINE'') (Alt (Lit ''CURVE'') (Lit ''OFFCURVE''))))
          (Seq (Opt (Seq (Lit '' '') (Grp 4 (Lit ''SMOOTH'')))) (Lit []))))) s2 c1)"
    by blast
  from seq_token [OF 2] obtain Y s3 c3 where Y: "s2 = Y @ s3" "Y \<noteq> []" "set Y \<subseteq> set numchars"
    and 3: "(r, c) \<in> set (rx_match
        (Seq (Lit '' '') (Seq (Grp 3 (Alt (Lit ''LINE'') (Alt (Lit ''CURVE'') (Lit ''OFFCURVE''))))
          (Seq (Opt (Seq (Lit '' '') (Grp 4 (Lit ''SMOOTH'')))) (Lit [])))) s3 c3)"
    by blast
  from seq_lit [OF 3] obtain s4 where s4: "s3 = '' '' @ s4"
    and 4: "(r, c) \<in> set (rx_match
        (Seq (Grp 3 (Alt (Lit ''LINE'') (Alt (Lit ''CURVE'') (Lit ''OFFCURVE''))))
          (Seq (Opt (Seq (Lit '' '') (Grp 4 (Lit ''SMOOTH'')))) (Lit []))) s4 c3)"
    by blast
  from seq_type [OF 4] obtain T s5 where T: "s4 = T @ s5" "T \<in> {''LINE'', ''CURVE'', ''OFFCURVE''}"
    by blast
  have "s = X @ '' '' @ Y @ '' '' @ T @ s5"
    by (simp only: X(1) s2 Y(1) s4 T(1))
  with X(2,3) Y(2,3) T(2) show ?thesis
    unfolding is_token_def by blast
qed

lemma node_not_of_form:
  assumes "\<not> (\<exists>X Y T rest. s = X @ '' '' @ Y @ '' '' @ T @ rest \<and> is_token X \<and> is_token Y \<and>
           T \<in> {''LINE'', ''CURVE'', ''OFFCURVE''})"
  shows "node (VStr s) = Inl AttributeError"
proof (cases "re_match node_rx s")
  case None
  then show ?thesis by simp
next
  case (Some m)
  from node_rx_match_form [OF Some] assms show ?thesis by blast
qed


lemma grp_smooth:
  "rx_match (Seq (Lit '' '') (Grp 4 (Lit ''SMOOTH''))) ('' SMOOTH'' @ r) c = [(r, (4, ''SMOOTH'') # c)]"
  by simp

lemma no_smooth:
  assumes "take 7 rest \<noteq> '' SMOOTH''"
  shows "rx_match (Seq (Lit '' '') (Grp 4 (Lit ''SMOOTH''))) rest c = []"
proof (rule ccontr)
  assume "rx_match (Seq (Lit '' '') (Grp 4 (Lit ''SMOOTH''))) rest c \<noteq> []"
  then obtain r c' where "(r, c') \<in> set (rx_match (Seq (Lit '' '') (Grp 4 (Lit ''SMOOTH''))) rest c)"
    by (metis list.set_intros(1) neq_Nil_conv surj_pair)
  then obtain r1 where "rest = '' '' @ ''SMOOTH'' @ r1"
    unfolding in_Seq in_Grp in_Lit by blast
  then have "take 7 rest = '' SMOOTH''" by simp
  with assms show False by contradiction
qed

lemma smooth_part:
  "rx_match (Seq (Opt (Seq (Lit '' '') (Grp 4 (Lit ''SMOOTH'')))) (Lit [])) rest c =
     (if take 7 rest = '' SMOOTH''
      then [(drop 7 rest, (4, ''SMOOTH'') # c), (rest, c)] else [(rest, c)])"
proof (cases "take 7 rest = '' SMOOTH''")
  case True
  then have rest: "rest = '' SMOOTH'' @ drop 7 rest"
    by (metis append_take_drop_id)
  have "rx_match (Opt (Seq (Lit '' '') (Grp 4 (Lit ''SMOOTH'')))) rest c =
          [(drop 7 rest, (4, ''SMOOTH'') # c), (rest, c)]"
    using grp_smooth [of "drop 7 rest" c] rest
    by (simp only: rx_match.simps(6)) simp
  with True show ?thesis
    by (simp only: rx_match.simps(4)) simp
next
  case False
  have "rx_match (Opt (Seq (Lit '' '') (Grp 4 (Lit ''SMOOTH'')))) rest c = [(rest, c)]"
    using no_smooth [OF False, of c]
    by (simp only: rx_match.simps(6)) simp
  with False show ?thesis
    by (simp only: rx_match.simps(4)) simp
qed

lemma type_part:
  assumes "T \<in> {''LINE'', ''CURVE'', ''OFFCURVE''}"
  shows "rx_match (Grp 3 (Alt (Lit ''LINE'') (Alt (Lit ''CURVE'') (Lit ''OFFCURVE'')))) (T @ rest) c =
           [(rest, (3, T) # c)]"
  using assms by auto

lemma seq_type_part:
  assumes "T \<in> {''LINE'', ''CURVE'', ''OFFCURVE''}"
  shows "rx_match (Seq (Grp 3 (Alt (Lit ''LINE'') (Alt (Lit ''CURVE'') (Lit ''OFFCURVE'')))) R)
           (T @ rest) c = rx_match R rest ((3, T) # c)"
  using type_part [OF assms, of rest c]
  by (simp only: rx_match.simps(4)) simp

lemma node_rx_form:
  assumes "is_token X" "is_token Y" "T \<in> {''LINE'', ''CURVE'', ''OFFCURVE''}"
  shows "re_match node_rx (X @ '' '' @ Y @ '' '' @ T @ rest) =
     Some (if take 7 rest = '' SMOOTH''
           then (drop 7 rest, [(4, ''SMOOTH''), (3, T), (2, Y), (1, X)])
           else (rest, [(3, T), (2, Y), (1, X)]))"
proof -
  have sp: "CHR '' '' \<notin> set numchars" by (simp add: numchars_def)
  from assms(1,2) have X: "X \<noteq> []" "set X \<subseteq> set numchars" and Y: "Y \<noteq> []" "set Y \<subseteq> set numchars"
    by (simp_all add: is_token_def)
  have s: "X @ '' '' @ Y @ '' '' @ T @ rest = X @ CHR '' '' # (Y @ CHR '' '' # (T @ rest))"
    by simp
  have "rx_match node_rx (X @ '' '' @ Y @ '' '' @ T @ rest) [] =
        rx_match (Seq (Opt (Seq (Lit '' '') (Grp 4 (Lit ''SMOOTH'')))) (Lit []))
          rest [(3, T), (2, Y), (1, X)]"
    by (simp only: node_rx_unfold s token_then_space [OF X sp] token_then_space [OF Y sp]
          seq_type_part [OF assms(3)])
  then show ?thesis
    by (simp only: re_match_def smooth_part) simp
qed

section \<open>Nodes and vectors\<close>

lemma node_line: "node (VStr ''100 200 LINE'') = Inr (VList [VInt 100, VInt 200, VStr ''LINE'', VNone])"
  by code_simp

lemma node_curve_smooth:
  "node (VStr ''10.5 20 CURVE SMOOTH'') =
     Inr (VList [VFloat (Finite (21 / 2)), VInt 20, VStr ''CURVE'', VStr ''SMOOTH''])"
  by code_simp

lemma node_rx_captures:
  assumes "(r, c) \<in> set (rx_match node_rx s [])"
  shows "map_of c 3 \<in> {Some ''LINE'', Some ''CURVE'', Some ''OFFCURVE''} \<and>
         map_of c 4 \<in> {None, Some ''SMOOTH''}"
  using assms unfolding node_rx_def seqs_def numgroup_def
  apply (simp only: foldr.simps o_apply in_Seq in_Grp in_Lit in_Alt in_Opt)
  apply (auto dest!: in_ClsPlus)
  done

lemma node_shape:
  assumes "node (VStr s) = Inr v"
  shows "\<exists>x y t sm. v = VList [x, y, VStr t, sm] \<and> is_number x \<and> is_number y \<and>
           t \<in> {''LINE'', ''CURVE'', ''OFFCURVE''} \<and> sm \<in> {VNone, VStr ''SMOOTH''}"
proof -
  from assms obtain r c x y where m: "re_match node_rx s = Some (r, c)"
    and x: "num (str_or_none (map_of c 1)) = Inr x"
    and y: "num (str_or_none (map_of c 2)) = Inr y"
    and v: "v = VList [x, y, str_or_none (map_of c 3), str_or_none (map_of c 4)]"
    by (auto split: option.splits sum.splits prod.splits)
  from m have "(r, c) \<in> set (rx_match node_rx s [])" by (rule re_match_in)
  from node_rx_captures [OF this] x y v show ?thesis
    by (auto simp: str_or_none_def dest: num_number)
qed

lemma node_fails_iff:
  "raises (node (VStr s)) \<longleftrightarrow>
     (case re_match node_rx s of None \<Rightarrow> True
      | Some (rest, c) \<Rightarrow>
          raises (num (str_or_none (map_of c 1))) \<or> raises (num (str_or_none (map_of c 2))))"
  by (auto simp: raises_def num_not_Unmodelled split: option.splits sum.splits prod.splits)

lemma node_of_form:
  assumes "is_token X" "is_token Y" "T \<in> {''LINE'', ''CURVE'', ''OFFCURVE''}"
  shows "node (VStr (X @ '' '' @ Y @ '' '' @ T @ rest)) =
     (case num (VStr X) of Inl e \<Rightarrow> Inl e
      | Inr x \<Rightarrow>
          (case num (VStr Y) of Inl e \<Rightarrow> Inl e
           | Inr y \<Rightarrow>
               Inr (VList [x, y, VStr T,
                     if take 7 rest = '' SMOOTH'' then VStr ''SMOOTH'' else VNone])))"
proof (cases "take 7 rest = '' SMOOTH''")
  case True
  with node_rx_form [OF assms, of rest]
  have "re_match node_rx (X @ '' '' @ Y @ '' '' @ T @ rest) =
          Some (drop 7 rest, [(4, ''SMOOTH''), (3, T), (2, Y), (1, X)])"
    by simp
  with True show ?thesis
    by (simp only: node.simps) (simp add: str_or_none_def split: sum.splits)
next
  case False
  with node_rx_form [OF assms, of rest]
  have "re_match node_rx (X @ '' '' @ Y @ '' '' @ T @ rest) =
          Some (rest, [(3, T), (2, Y), (1, X)])"
    by simp
  with False show ?thesis
    by (simp only: node.simps) (simp add: str_or_none_def split: sum.splits)
qed

lemma node_overflow: "node (VStr ''1e400 0 LINE'') = Inl OverflowError"
  by code_simp

lemma node_rx_overflow:
  "re_match node_rx ''1e400 0 LINE'' = Some ([], [(3, ''LINE''), (2, ''0''), (1, ''1e400'')])"
  by code_simp

lemma float_1e400: "float_of_string ''1e400'' = Inr (Infinity False)"
  by code_simp

lemma float_0: "float_of_string ''0'' = Inr (Finite 0)"
  by code_simp

lemma num_1: "num (VStr ''1'') = Inr (VInt 1)"
  by code_simp

lemma num_2: "num (VStr ''2'') = Inr (VInt 2)"
  by code_simp

lemma tokens_1_2: "is_token ''1'' \<and> is_token ''2'' \<and> is_token ''1e400'' \<and> is_token ''0''"
  by (simp add: is_token_def numchars_def)

lemma node_rx_abc: "re_match node_rx ''abc'' = None"
  by code_simp

lemma abc_not_of_form:
  "\<not> (\<exists>X Y T rest. ''abc'' = X @ '' '' @ Y @ '' '' @ T @ rest \<and> is_token X \<and> is_token Y \<and>
         T \<in> {''LINE'', ''CURVE'', ''OFFCURVE''})"
proof
  assume "\<exists>X Y T rest. ''abc'' = X @ '' '' @ Y @ '' '' @ T @ rest \<and> is_token X \<and> is_token Y \<and>
         T \<in> {''LINE'', ''CURVE'', ''OFFCURVE''}"
  then obtain X Y T rest where f: "''abc'' = X @ '' '' @ Y @ '' '' @ T @ rest"
    and t: "is_token X" "is_token Y" "T \<in> {''LINE'', ''CURVE'', ''OFFCURVE''}"
    by blast
  have "CHR '' '' \<in> set (X @ '' '' @ Y @ '' '' @ T @ rest)" by simp
  then have "CHR '' '' \<in> set ''abc''" unfolding f [symmetric] .
  then show False by simp
qed

lemma node_fails_iff_form:
  "raises (node (VStr s)) \<longleftrightarrow>
     (\<not> (\<exists>X Y T rest. s = X @ '' '' @ Y @ '' '' @ T @ rest \<and> is_token X \<and> is_token Y \<and>
            T \<in> {''LINE'', ''CURVE'', ''OFFCURVE''})) \<or>
     (\<exists>X Y T rest. s = X @ '' '' @ Y @ '' '' @ T @ rest \<and> is_token X \<and> is_token Y \<and>
            T \<in> {''LINE'', ''CURVE'', ''OFFCURVE''} \<and>
            (raises (num (VStr X)) \<or> raises (num (VStr Y))))"
proof (cases "\<exists>X Y T rest. s = X @ '' '' @ Y @ '' '' @ T @ rest \<and> is_token X \<and> is_token Y \<and>
            T \<in> {''LINE'', ''CURVE'', ''OFFCURVE''}")
  case False
  with node_not_of_form [OF False] show ?thesis
    by (simp add: raises_def)
next
  case True
  have "raises (node (VStr s)) \<longleftrightarrow>
     (\<exists>X Y T rest. s = X @ '' '' @ Y @ '' '' @ T @ rest \<and> is_token X \<and> is_token Y \<and>
            T \<in> {''LINE'', ''CURVE'', ''OFFCURVE''} \<and>
            (raises (num (VStr X)) \<or> raises (num (VStr Y))))"
  proof
    assume r: "raises (node (VStr s))"
    from True obtain X Y T rest where f: "s = X @ '' '' @ Y @ '' '' @ T @ rest"
      and t: "is_token X" "is_token Y" "T \<in> {''LINE'', ''CURVE'', ''OFFCURVE''}"
      by blast
    from r node_of_form [OF t, of rest] have "raises (num (VStr X)) \<or> raises (num (VStr Y))"
      unfolding f by (auto simp: raises_def split: sum.splits)
    with f t show "\<exists>X Y T rest. s = X @ '' '' @ Y @ '' '' @ T @ rest \<and> is_token X \<and> is_token Y \<and>
            T \<in> {''LINE'', ''CURVE'', ''OFFCURVE''} \<and>
            (raises (num (VStr X)) \<or> raises (num (VStr Y)))"
      by blast
  next
    assume "\<exists>X Y T rest. s = X @ '' '' @ Y @ '' '' @ T @ rest \<and> is_token X \<and> is_token Y \<and>
            T \<in> {''LINE'', ''CURVE'', ''OFFCURVE''} \<and>
            (raises (num (VStr X)) \<or> raises (num (VStr Y)))"
    then obtain X Y T rest where f: "s = X @ '' '' @ Y @ '' '' @ T @ rest"
      and t: "is_token X" "is_token Y" "T \<in> {''LINE'', ''CURVE'', ''OFFCURVE''}"
      and n: "raises (num (VStr X)) \<or> raises (num (VStr Y))"
      by blast
    from n node_of_form [OF t, of rest] show "raises (node (VStr s))"
      unfolding f by (auto simp: raises_def num_not_Unmodelled split: sum.splits)
  qed
  with True show ?thesis by blast
qed

text \<open>
  C3, as the specification states it, fails. \<^verbatim>\<open>"1e400 0 LINE"\<close> is of the form
  \<^verbatim>\<open>X Y TYPE\<close>, with \<^verbatim>\<open>X\<close> the float literal \<^verbatim>\<open>1e400\<close>, \<^verbatim>\<open>Y\<close> the literal \<^verbatim>\<open>0\<close> and
  \<^verbatim>\<open>TYPE\<close> the word \<^verbatim>\<open>LINE\<close>; it matches the pattern
  \<^verbatim>\<open>([-.e\d]+) ([-.e\d]+) (LINE|CURVE|OFFCURVE)(?: (SMOOTH))?\<close>, and \<^verbatim>\<open>float\<close> accepts both
  coordinates, reading the first as infinity. \<^verbatim>\<open>node\<close> still fails, with the
  \<^verbatim>\<open>OverflowError\<close> of \<^verbatim>\<open>int\<close> of an infinite float in \<^verbatim>\<open>num\<close>. So \<^verbatim>\<open>node\<close> does not fail
  only when the string does not match the token pattern.
\<close>

theorem node_fails_on_matching_string:
  "raises (node (VStr ''1e400 0 LINE''))
   \<and> re_match node_rx ''1e400 0 LINE'' \<noteq> None
   \<and> ''1e400 0 LINE'' = ''1e400'' @ '' '' @ ''0'' @ '' '' @ ''LINE'' @ []
   \<and> float_of_string ''1e400'' = Inr (Infinity False)
   \<and> float_of_string ''0'' = Inr (Finite 0)"
  unfolding node_overflow node_rx_overflow float_1e400 float_0 by (simp add: raises_def)

text \<open>
  C3, amended. \<^verbatim>\<open>node("100 200 LINE")\<close> is \<^verbatim>\<open>[100, 200, "LINE", None]\<close> and
  \<^verbatim>\<open>node("10.5 20 CURVE SMOOTH")\<close> is \<^verbatim>\<open>[10.5, 20, "CURVE", "SMOOTH"]\<close>. For all tokens
  \<open>X\<close> and \<open>Y\<close>, every \<open>T\<close> among \<^verbatim>\<open>LINE\<close>, \<^verbatim>\<open>CURVE\<close>, \<^verbatim>\<open>OFFCURVE\<close> and every remainder,
  \<^verbatim>\<open>node\<close> of \<open>X\<close>, a space, \<open>Y\<close>, a space, \<open>T\<close> and the remainder is the list of \<^verbatim>\<open>num\<close> of
  \<open>X\<close>, \<^verbatim>\<open>num\<close> of \<open>Y\<close>, \<open>T\<close>, and \<^verbatim>\<open>SMOOTH\<close> if the remainder starts with a space and
  \<^verbatim>\<open>SMOOTH\<close>, \<^verbatim>\<open>None\<close> otherwise; it fails with the error of \<^verbatim>\<open>num\<close> if \<^verbatim>\<open>num\<close> fails on
  \<open>X\<close> or on \<open>Y\<close>. On a string that is not of that form \<^verbatim>\<open>node\<close> fails with the
  \<^verbatim>\<open>AttributeError\<close> of \<^verbatim>\<open>.groups()\<close> of no match. So \<^verbatim>\<open>node\<close> fails exactly when the
  string is not of the form, or is of the form and \<^verbatim>\<open>num\<close> fails on one of the two
  coordinate tokens. Every result of \<^verbatim>\<open>node\<close> is a list of four elements: two numbers,
  one of the three type words, and \<^verbatim>\<open>SMOOTH\<close> or \<^verbatim>\<open>None\<close>. In terms of the pattern,
  \<^verbatim>\<open>node\<close> fails exactly when the pattern does not match at the start of the string or
  \<^verbatim>\<open>num\<close> fails on one of the first two captured groups.
\<close>

theorem node_parses:
  "node (VStr ''100 200 LINE'') = Inr (VList [VInt 100, VInt 200, VStr ''LINE'', VNone])
   \<and> node (VStr ''10.5 20 CURVE SMOOTH'') =
       Inr (VList [VFloat (Finite (21 / 2)), VInt 20, VStr ''CURVE'', VStr ''SMOOTH''])
   \<and> (is_token X \<and> is_token Y \<and> T \<in> {''LINE'', ''CURVE'', ''OFFCURVE''} \<longrightarrow>
        node (VStr (X @ '' '' @ Y @ '' '' @ T @ rest)) =
          (case num (VStr X) of Inl e \<Rightarrow> Inl e
           | Inr x \<Rightarrow>
               (case num (VStr Y) of Inl e \<Rightarrow> Inl e
                | Inr y \<Rightarrow>
                    Inr (VList [x, y, VStr T,
                          if take 7 rest = '' SMOOTH'' then VStr ''SMOOTH'' else VNone]))))
   \<and> (\<not> (\<exists>X Y T rest. s = X @ '' '' @ Y @ '' '' @ T @ rest \<and> is_token X \<and> is_token Y \<and>
              T \<in> {''LINE'', ''CURVE'', ''OFFCURVE''}) \<longrightarrow>
        node (VStr s) = Inl AttributeError)
   \<and> (raises (node (VStr s)) \<longleftrightarrow>
        (\<not> (\<exists>X Y T rest. s = X @ '' '' @ Y @ '' '' @ T @ rest \<and> is_token X \<and> is_token Y \<and>
               T \<in> {''LINE'', ''CURVE'', ''OFFCURVE''})) \<or>
        (\<exists>X Y T rest. s = X @ '' '' @ Y @ '' '' @ T @ rest \<and> is_token X \<and> is_token Y \<and>
               T \<in> {''LINE'', ''CURVE'', ''OFFCURVE''} \<and>
               (raises (num (VStr X)) \<or> raises (num (VStr Y)))))
   \<and> (node (VStr s) = Inr v \<longrightarrow>
        (\<exists>x y t sm. v = VList [x, y, VStr t, sm] \<and> is_number x \<and> is_number y \<and>
           t \<in> {''LINE'', ''CURVE'', ''OFFCURVE''} \<and> sm \<in> {VNone, VStr ''SMOOTH''}))
   \<and> (raises (node (VStr s)) \<longleftrightarrow>
        (case re_match node_rx s of None \<Rightarrow> True
         | Some (rest, c) \<Rightarrow>
             raises (num (str_or_none (map_of c 1))) \<or>
             raises (num (str_or_none (map_of c 2)))))"
proof -
  have p: "is_token X \<and> is_token Y \<and> T \<in> {''LINE'', ''CURVE'', ''OFFCURVE''} \<longrightarrow>
        node (VStr (X @ '' '' @ Y @ '' '' @ T @ rest)) =
          (case num (VStr X) of Inl e \<Rightarrow> Inl e
           | Inr x \<Rightarrow>
               (case num (VStr Y) of Inl e \<Rightarrow> Inl e
                | Inr y \<Rightarrow>
                    Inr (VList [x, y, VStr T,
                          if take 7 rest = '' SMOOTH'' then VStr ''SMOOTH'' else VNone])))"
    using node_of_form [of X Y T rest] by blast
  have n: "\<not> (\<exists>X Y T rest. s = X @ '' '' @ Y @ '' '' @ T @ rest \<and> is_token X \<and> is_token Y \<and>
              T \<in> {''LINE'', ''CURVE'', ''OFFCURVE''}) \<longrightarrow>
        node (VStr s) = Inl AttributeError"
    using node_not_of_form [of s] by blast
  show ?thesis
    using node_line node_curve_smooth p n node_fails_iff_form [of s] node_shape [of s v]
      node_fails_iff [of s]
    by blast
qed

theorem node_parses_witness:
  "is_token ''1'' \<and> is_token ''2''
   \<and> node (VStr (''1'' @ '' '' @ ''2'' @ '' '' @ ''OFFCURVE'' @ '' SMOOTH'')) =
       Inr (VList [VInt 1, VInt 2, VStr ''OFFCURVE'', VStr ''SMOOTH''])
   \<and> \<not> (\<exists>X Y T rest. ''abc'' = X @ '' '' @ Y @ '' '' @ T @ rest \<and> is_token X \<and> is_token Y \<and>
              T \<in> {''LINE'', ''CURVE'', ''OFFCURVE''})
   \<and> node (VStr ''abc'') = Inl AttributeError
   \<and> node (VStr ''100 200 LINE'') = Inr (VList [VInt 100, VInt 200, VStr ''LINE'', VNone])
   \<and> (\<exists>x y t sm. VList [VInt 100, VInt 200, VStr ''LINE'', VNone] = VList [x, y, VStr t, sm]
        \<and> is_number x \<and> is_number y
        \<and> t \<in> {''LINE'', ''CURVE'', ''OFFCURVE''} \<and> sm \<in> {VNone, VStr ''SMOOTH''})"
proof -
  have a: "node (VStr (''1'' @ '' '' @ ''2'' @ '' '' @ ''OFFCURVE'' @ '' SMOOTH'')) =
       Inr (VList [VInt 1, VInt 2, VStr ''OFFCURVE'', VStr ''SMOOTH''])"
    using node_parses [where X = "''1''" and Y = "''2''" and T = "''OFFCURVE''"
        and rest = "'' SMOOTH''"] tokens_1_2
    by (simp only: num_1 num_2) simp
  have b: "node (VStr ''abc'') = Inl AttributeError"
    using node_parses [where s = "''abc''"] abc_not_of_form by blast
  have c: "\<exists>x y t sm. VList [VInt 100, VInt 200, VStr ''LINE'', VNone] = VList [x, y, VStr t, sm]
        \<and> is_number x \<and> is_number y
        \<and> t \<in> {''LINE'', ''CURVE'', ''OFFCURVE''} \<and> sm \<in> {VNone, VStr ''SMOOTH''}"
    using node_parses [where s = "''100 200 LINE''"
        and v = "VList [VInt 100, VInt 200, VStr ''LINE'', VNone]"]
    by blast
  from a b c tokens_1_2 abc_not_of_form node_line show ?thesis by blast
qed

text \<open>
  C4. \<^verbatim>\<open>vector("{1, 2.5}", 2)\<close> is the list of the int \<open>1\<close> and the float \<open>2.5\<close>;
  \<^verbatim>\<open>vector("{1,2,3}", 2)\<close> fails: the pattern for two numbers does not match, and
  \<^verbatim>\<open>.groups()\<close> of no match is an \<^verbatim>\<open>AttributeError\<close>.
\<close>

theorem vector_examples:
  "vector (VStr ''{1, 2.5}'') 2 = Inr (VList [VInt 1, VFloat (Finite (5 / 2))])
   \<and> vector (VStr ''{1,2,3}'') 2 = Inl AttributeError
   \<and> re_match (vector_rx 2) ''{1,2,3}'' = None"
  by code_simp

section \<open>Casting twice\<close>

lemma date_converter: "map_of get_type_structure ''date'' = Some (Conv glyphs_datetime)"
  by (simp add: get_type_structure_def)

lemma glyphs_datetime_once:
  "glyphs_datetime (VStr ''2015-06-08 09:53:40 +0000'') = Inr (VDatetime 2015 6 8 9 53 40)"
  by code_simp

lemma cast_date_once:
  "cast_data (VDict [(''date'', VStr ''2015-06-08 09:53:40 +0000'')]) None =
     Inr (VDict [(''date'', VDatetime 2015 6 8 9 53 40)])"
  by code_simp

lemma cast_date_twice:
  "cast_data (VDict [(''date'', VDatetime 2015 6 8 9 53 40)]) None = Inl AttributeError"
  by code_simp

text \<open>
  C8. Casting is not idempotent. The converter of the field \<^verbatim>\<open>date\<close> is
  \<^verbatim>\<open>glyphs_datetime\<close>; on the well-formed string \<^verbatim>\<open>2015-06-08 09:53:40 +0000\<close> it returns a
  date, and on that date it fails (a date has no \<^verbatim>\<open>rfind\<close>). So does \<^verbatim>\<open>cast_data\<close> on a
  document with this field: the first pass succeeds, the second pass on its result fails.
\<close>

theorem casting_not_idempotent:
  "map_of get_type_structure ''date'' = Some (Conv glyphs_datetime)
   \<and> (\<exists>raw v. glyphs_datetime (VStr raw) = Inr v \<and> raises (glyphs_datetime v))
   \<and> glyphs_datetime (VStr ''2015-06-08 09:53:40 +0000'') = Inr (VDatetime 2015 6 8 9 53 40)
   \<and> glyphs_datetime (VDatetime 2015 6 8 9 53 40) = Inl AttributeError
   \<and> cast_data (VDict [(''date'', VStr ''2015-06-08 09:53:40 +0000'')]) None =
       Inr (VDict [(''date'', VDatetime 2015 6 8 9 53 40)])
   \<and> raises (cast_data (VDict [(''date'', VDatetime 2015 6 8 9 53 40)]) None)"
proof -
  have "raises (glyphs_datetime (VDatetime 2015 6 8 9 53 40))"
    by (simp add: raises_def)
  with glyphs_datetime_once
  have "\<exists>raw v. glyphs_datetime (VStr raw) = Inr v \<and> raises (glyphs_datetime v)"
    by blast
  moreover have "raises (cast_data (VDict [(''date'', VDatetime 2015 6 8 9 53 40)]) None)"
    by (simp add: cast_date_twice raises_def)
  ultimately show ?thesis
    using date_converter glyphs_datetime_once cast_date_once by simp
qed

section \<open>The caster\<close>

lemma cast_fields_step:
  "cast_fields ((key, cur_type) # types) (VDict kvs) =
     (case map_of kvs key of
        None \<Rightarrow>
          cast_fields types
            (VDict (case map_of DEFAULTS key of None \<Rightarrow> kvs | Some d \<Rightarrow> AList.update key d kvs))
      | Some x \<Rightarrow>
          (case cur_type of
             Conv f \<Rightarrow>
               (case f x of Inl e \<Rightarrow> Inl e
                | Inr y \<Rightarrow> cast_fields types (VDict (AList.update key y kvs)))
           | Sub sub \<Rightarrow>
               (case py_iter x of Inl e \<Rightarrow> Inl e
                | Inr os \<Rightarrow>
                    (case cast_records sub os of Inl e \<Rightarrow> Inl e
                     | Inr rs \<Rightarrow>
                         cast_fields types (VDict (AList.update key (after_loop x rs) kvs))))))"
  by (simp split: option.splits sum.splits schema.splits)

lemma cast_fields_dict:
  "cast_fields types (VDict kvs) = Inr d \<Longrightarrow> \<exists>kvs'. d = VDict kvs'"
proof (induction types arbitrary: kvs)
  case Nil
  then show ?case by auto
next
  case (Cons kt types)
  obtain key cur_type where kt: "kt = (key, cur_type)" by (cases kt)
  from Cons.prems show ?case
    unfolding kt cast_fields_step
    by (auto split: option.splits sum.splits schema.splits dest: Cons.IH)
qed

lemma cast_fields_frame:
  "cast_fields types (VDict kvs) = Inr (VDict kvs') \<Longrightarrow> k \<notin> fst ` set types \<Longrightarrow>
   map_of kvs' k = map_of kvs k"
proof (induction types arbitrary: kvs)
  case Nil
  then show ?case by simp
next
  case (Cons kt types)
  obtain key cur_type where kt: "kt = (key, cur_type)" by (cases kt)
  from Cons.prems(2) have k: "k \<noteq> key" "k \<notin> fst ` set types" by (auto simp: kt)
  from Cons.prems(1) show ?case
    unfolding kt cast_fields_step
    using k by (auto split: option.splits sum.splits schema.splits
                     dest!: Cons.IH simp: update_conv')
qed

lemma cast_fields_default:
  "cast_fields types (VDict kvs) = Inr (VDict kvs') \<Longrightarrow> distinct (map fst types) \<Longrightarrow>
   key \<in> fst ` set types \<Longrightarrow> map_of kvs key = None \<Longrightarrow>
   map_of kvs' key = map_of DEFAULTS key"
proof (induction types arbitrary: kvs)
  case Nil
  then show ?case by simp
next
  case (Cons kt types)
  obtain k t where kt: "kt = (k, t)" by (cases kt)
  show ?case
  proof (cases "k = key")
    case True
    with Cons.prems(2) have notin: "key \<notin> fst ` set types" by (auto simp: kt)
    from Cons.prems(1,4) True
    have "cast_fields types
            (VDict (case map_of DEFAULTS key of None \<Rightarrow> kvs | Some d \<Rightarrow> AList.update key d kvs)) =
          Inr (VDict kvs')"
      unfolding kt True cast_fields_step by simp
    from cast_fields_frame [OF this notin] Cons.prems(4) show ?thesis
      by (auto split: option.splits simp: update_conv')
  next
    case False
    with Cons.prems(2,3) have d: "distinct (map fst types)" and kin: "key \<in> fst ` set types"
      by (auto simp: kt)
    from Cons.prems(1) obtain kvs1 where
      step: "cast_fields types (VDict kvs1) = Inr (VDict kvs')" and
      same: "map_of kvs1 key = map_of kvs key"
      unfolding kt cast_fields_step using False
      by (auto split: option.splits sum.splits schema.splits simp: update_conv')
    from Cons.IH [OF step d kin] same Cons.prems(4) show ?thesis by simp
  qed
qed

lemma cast_records_values:
  "cast_records sub (map Inr recs) = Inr rs \<longleftrightarrow>
     list_all2 (\<lambda>r r'. cast_fields sub r = Inr r') recs rs"
proof (induction recs arbitrary: rs)
  case Nil
  then show ?case by auto
next
  case (Cons r recs)
  then show ?case
    by (cases rs) (auto split: sum.splits simp: Cons.IH [symmetric])
qed

lemma cast_fields_present:
  "cast_fields types (VDict kvs) = Inr (VDict kvs') \<Longrightarrow> distinct (map fst types) \<Longrightarrow>
   (key, cur_type) \<in> set types \<Longrightarrow> map_of kvs key = Some x \<Longrightarrow>
   (case cur_type of
      Conv f \<Rightarrow> \<exists>y. f x = Inr y \<and> map_of kvs' key = Some y
    | Sub sub \<Rightarrow>
        \<exists>os rs. py_iter x = Inr os \<and> cast_records sub os = Inr rs \<and>
                map_of kvs' key = Some (after_loop x rs))"
proof (induction types arbitrary: kvs)
  case Nil
  then show ?case by simp
next
  case (Cons kt types)
  obtain k t where kt: "kt = (k, t)" by (cases kt)
  show ?case
  proof (cases "k = key")
    case True
    with Cons.prems(2) have notin: "key \<notin> fst ` set types" by (auto simp: kt)
    with Cons.prems(3) True have t: "t = cur_type"
      by (auto simp: kt image_iff)
    show ?thesis
    proof (cases cur_type)
      case (Conv f)
      with Cons.prems(1,4) obtain y where y: "f x = Inr y"
        and rest: "cast_fields types (VDict (AList.update key y kvs)) = Inr (VDict kvs')"
        unfolding kt True t cast_fields_step by (auto split: sum.splits)
      from cast_fields_frame [OF rest notin] y Conv show ?thesis
        by (simp add: update_conv')
    next
      case (Sub sub)
      with Cons.prems(1,4) obtain os rs where os: "py_iter x = Inr os"
        and rs: "cast_records sub os = Inr rs"
        and rest: "cast_fields types (VDict (AList.update key (after_loop x rs) kvs)) =
                     Inr (VDict kvs')"
        unfolding kt True t cast_fields_step by (auto split: sum.splits)
      from cast_fields_frame [OF rest notin] os rs Sub show ?thesis
        by (simp add: update_conv')
    qed
  next
    case False
    with Cons.prems(2,3) have d: "distinct (map fst types)" and kin: "(key, cur_type) \<in> set types"
      by (auto simp: kt)
    from Cons.prems(1) obtain kvs1 where
      step: "cast_fields types (VDict kvs1) = Inr (VDict kvs')" and
      same: "map_of kvs1 key = map_of kvs key"
      unfolding kt cast_fields_step using False
      by (auto split: option.splits sum.splits schema.splits simp: update_conv')
    from Cons.IH [OF step d kin] same Cons.prems(4) show ?thesis by simp
  qed
qed

lemma cast_fields_absent_ok:
  "distinct (map fst types) \<Longrightarrow> \<forall>k \<in> fst ` set types. map_of kvs k = None \<Longrightarrow>
   \<exists>kvs'. cast_fields types (VDict kvs) = Inr (VDict kvs')"
proof (induction types arbitrary: kvs)
  case Nil
  then show ?case by simp
next
  case (Cons kt types)
  obtain k t where kt: "kt = (k, t)" by (cases kt)
  from Cons.prems have d: "distinct (map fst types)" and notin: "k \<notin> fst ` set types"
    and none: "map_of kvs k = None" and rest: "\<forall>k' \<in> fst ` set types. map_of kvs k' = None"
    by (auto simp: kt)
  let ?kvs1 = "case map_of DEFAULTS k of None \<Rightarrow> kvs | Some d \<Rightarrow> AList.update k d kvs"
  from rest notin have "\<forall>k' \<in> fst ` set types. map_of ?kvs1 k' = None"
    by (auto split: option.splits simp: update_conv')
  from Cons.IH [OF d this] none show ?case
    unfolding kt cast_fields_step by simp
qed

lemma map_of_DEFAULTS:
  "map_of DEFAULTS key =
     (if key \<in> {''interpolationWeight'', ''interpolationWidth'', ''widthValue'', ''weightValue''}
      then Some (VInt 100) else None)"
  by (simp add: DEFAULTS_def)

lemma update_absent: "map_of kvs key = None \<Longrightarrow> AList.update key d kvs = kvs @ [(key, d)]"
  by (induction kvs) (auto split: if_splits)

lemma distinct_get_type_structure: "distinct (map fst get_type_structure)"
  by (simp add: get_type_structure_def)

lemma fontMaster_schema:
  "\<exists>fm. (''fontMaster'', Sub fm) \<in> set get_type_structure \<and> distinct (map fst fm) \<and>
        ''weightValue'' \<in> fst ` set fm"
  by (simp add: get_type_structure_def)

lemma fontMaster_weightValue:
  assumes cast: "cast_fields get_type_structure (VDict doc) = Inr (VDict doc')"
    and fm: "map_of doc ''fontMaster'' = Some (VList recs)"
    and i: "i < length recs" and r: "recs ! i = VDict r"
    and absent: "map_of r ''weightValue'' = None"
  shows "\<exists>recs' r'. map_of doc' ''fontMaster'' = Some (VList recs') \<and> length recs' = length recs \<and>
           recs' ! i = VDict r' \<and> map_of r' ''weightValue'' = Some (VInt 100)"
proof -
  from fontMaster_schema obtain fm where
    sub: "(''fontMaster'', Sub fm) \<in> set get_type_structure" and
    d: "distinct (map fst fm)" and w: "''weightValue'' \<in> fst ` set fm"
    by blast
  from cast_fields_present [OF cast distinct_get_type_structure sub fm]
  obtain rs where rs: "cast_records fm (map Inr recs) = Inr rs"
    and doc': "map_of doc' ''fontMaster'' = Some (VList rs)"
    by auto
  from rs have all: "list_all2 (\<lambda>r r'. cast_fields fm r = Inr r') recs rs"
    by (simp add: cast_records_values)
  then have len: "length rs = length recs"
    by (simp add: list_all2_lengthD)
  from all i have ri: "cast_fields fm (recs ! i) = Inr (rs ! i)"
    by (rule list_all2_nthD)
  with r obtain r' where r': "rs ! i = VDict r'"
    using cast_fields_dict by fastforce
  from ri r r' have "cast_fields fm (VDict r) = Inr (VDict r')" by simp
  from cast_fields_default [OF this d w absent]
  have "map_of r' ''weightValue'' = Some (VInt 100)"
    by (simp add: map_of_DEFAULTS)
  with doc' len r' show ?thesis by blast
qed

lemma cast_small:
  "cast_data (VDict [(''id'', VStr ''m1'')])
     (Some [(''weightValue'', Conv int_conv), (''xHeight'', Conv int_conv)]) =
   Inr (VDict [(''id'', VStr ''m1''), (''weightValue'', VInt 100)])"
  by (simp add: cast_data_def DEFAULTS_def)

lemma cast_fontMaster_doc:
  "cast_data (VDict [(''fontMaster'', VList [VDict [(''id'', VStr ''m1'')]])]) None =
   Inr (VDict [(''fontMaster'',
          VList [VDict [(''id'', VStr ''m1''), (''weightValue'', VInt 100),
                        (''widthValue'', VInt 100)]])])"
  by code_simp

text \<open>
  C1. Let \<open>key\<close> be a key of the schema that is absent from \<open>data\<close>. After a cast that
  succeeds, \<open>data[key]\<close> is 100 when \<open>key\<close> is one of \<^verbatim>\<open>interpolationWeight\<close>,
  \<^verbatim>\<open>interpolationWidth\<close>, \<^verbatim>\<open>widthValue\<close>, \<^verbatim>\<open>weightValue\<close>, and \<open>key\<close> is still absent
  otherwise. The step of the loop for an absent key raises nothing: it appends the default,
  or does nothing, and the loop goes on; a cast in which every key of the schema is absent
  succeeds. In particular, casting a document with the schema of the registry gives every
  \<^verbatim>\<open>fontMaster\<close> record without \<^verbatim>\<open>weightValue\<close> the \<^verbatim>\<open>weightValue\<close> 100. (The keys of a
  schema are distinct, as those of a dictionary are.)
\<close>

theorem cast_data_defaults:
  "(cast_data (VDict kvs) (Some types) = Inr (VDict kvs') \<and> distinct (map fst types) \<and>
    key \<in> fst ` set types \<and> map_of kvs key = None \<longrightarrow>
      map_of kvs' key =
        (if key \<in> {''interpolationWeight'', ''interpolationWidth'', ''widthValue'', ''weightValue''}
         then Some (VInt 100) else None))
   \<and> (map_of kvs key = None \<longrightarrow>
        cast_data (VDict kvs) (Some ((key, cur_type) # types)) =
        cast_data
          (VDict (if key \<in> {''interpolationWeight'', ''interpolationWidth'', ''widthValue'',
                             ''weightValue''}
                  then kvs @ [(key, VInt 100)] else kvs))
          (Some types))
   \<and> (distinct (map fst types) \<and> (\<forall>k \<in> fst ` set types. map_of kvs k = None) \<longrightarrow>
        (\<exists>kvs'. cast_data (VDict kvs) (Some types) = Inr (VDict kvs')))
   \<and> (cast_data (VDict doc) None = Inr (VDict doc') \<and>
      map_of doc ''fontMaster'' = Some (VList recs) \<and> i < length recs \<and>
      recs ! i = VDict r \<and> map_of r ''weightValue'' = None \<longrightarrow>
        (\<exists>recs' r'. map_of doc' ''fontMaster'' = Some (VList recs') \<and>
           length recs' = length recs \<and> recs' ! i = VDict r' \<and>
           map_of r' ''weightValue'' = Some (VInt 100)))"
proof -
  have a: "cast_data (VDict kvs) (Some types) = Inr (VDict kvs') \<and> distinct (map fst types) \<and>
    key \<in> fst ` set types \<and> map_of kvs key = None \<longrightarrow>
      map_of kvs' key =
        (if key \<in> {''interpolationWeight'', ''interpolationWidth'', ''widthValue'', ''weightValue''}
         then Some (VInt 100) else None)"
    using cast_fields_default [of types kvs kvs' key]
    by (simp add: cast_data_def map_of_DEFAULTS)
  have b: "map_of kvs key = None \<longrightarrow>
        cast_data (VDict kvs) (Some ((key, cur_type) # types)) =
        cast_data
          (VDict (if key \<in> {''interpolationWeight'', ''interpolationWidth'', ''widthValue'',
                             ''weightValue''}
                  then kvs @ [(key, VInt 100)] else kvs))
          (Some types)"
    unfolding cast_data_def option.case cast_fields_step
    by (simp add: map_of_DEFAULTS update_absent)
  have c: "distinct (map fst types) \<and> (\<forall>k \<in> fst ` set types. map_of kvs k = None) \<longrightarrow>
        (\<exists>kvs'. cast_data (VDict kvs) (Some types) = Inr (VDict kvs'))"
    using cast_fields_absent_ok [of types kvs] by (simp add: cast_data_def)
  have d: "cast_data (VDict doc) None = Inr (VDict doc') \<and>
      map_of doc ''fontMaster'' = Some (VList recs) \<and> i < length recs \<and>
      recs ! i = VDict r \<and> map_of r ''weightValue'' = None \<longrightarrow>
        (\<exists>recs' r'. map_of doc' ''fontMaster'' = Some (VList recs') \<and>
           length recs' = length recs \<and> recs' ! i = VDict r' \<and>
           map_of r' ''weightValue'' = Some (VInt 100))"
    using fontMaster_weightValue [of doc doc' recs i r] by (simp add: cast_data_def)
  from a b c d show ?thesis by blast
qed

theorem cast_data_defaults_witness:
  "cast_data (VDict [(''id'', VStr ''m1'')])
     (Some [(''weightValue'', Conv int_conv), (''xHeight'', Conv int_conv)]) =
     Inr (VDict [(''id'', VStr ''m1''), (''weightValue'', VInt 100)])
   \<and> distinct (map fst [(''weightValue'', Conv int_conv), (''xHeight'', Conv int_conv)])
   \<and> map_of [(''id'', VStr ''m1'')] ''weightValue'' = None
   \<and> map_of [(''id'', VStr ''m1''), (''weightValue'', VInt 100)] ''weightValue'' = Some (VInt 100)
   \<and> map_of [(''id'', VStr ''m1''), (''weightValue'', VInt 100)] ''xHeight'' = None
   \<and> cast_data (VDict [(''fontMaster'', VList [VDict [(''id'', VStr ''m1'')]])]) None =
       Inr (VDict [(''fontMaster'',
              VList [VDict [(''id'', VStr ''m1''), (''weightValue'', VInt 100),
                            (''widthValue'', VInt 100)]])])
   \<and> (\<exists>recs' r'.
         map_of [(''fontMaster'',
              VList [VDict [(''id'', VStr ''m1''), (''weightValue'', VInt 100),
                            (''widthValue'', VInt 100)]])] ''fontMaster'' = Some (VList recs') \<and>
         length recs' = length [VDict [(''id'', VStr ''m1'')]] \<and> recs' ! 0 = VDict r' \<and>
         map_of r' ''weightValue'' = Some (VInt 100))"
proof -
  note t = cast_data_defaults
    [where kvs = "[(''id'', VStr ''m1'')]"
       and types = "[(''weightValue'', Conv int_conv), (''xHeight'', Conv int_conv)]"
       and kvs' = "[(''id'', VStr ''m1''), (''weightValue'', VInt 100)]"
       and doc = "[(''fontMaster'', VList [VDict [(''id'', VStr ''m1'')]])]"
       and doc' = "[(''fontMaster'',
              VList [VDict [(''id'', VStr ''m1''), (''weightValue'', VInt 100),
                            (''widthValue'', VInt 100)]])]"
       and recs = "[VDict [(''id'', VStr ''m1'')]]" and i = 0
       and r = "[(''id'', VStr ''m1'')]"]
  have w: "map_of [(''id'', VStr ''m1''), (''weightValue'', VInt 100)] ''weightValue'' =
            Some (VInt 100)"
    using t [where key = "''weightValue''"] cast_small by simp
  have x: "map_of [(''id'', VStr ''m1''), (''weightValue'', VInt 100)] ''xHeight'' = None"
    using t [where key = "''xHeight''"] cast_small by simp
  have f: "\<exists>recs' r'.
         map_of [(''fontMaster'',
              VList [VDict [(''id'', VStr ''m1''), (''weightValue'', VInt 100),
                            (''widthValue'', VInt 100)]])] ''fontMaster'' = Some (VList recs') \<and>
         length recs' = length [VDict [(''id'', VStr ''m1'')]] \<and> recs' ! 0 = VDict r' \<and>
         map_of r' ''weightValue'' = Some (VInt 100)"
    using t [where key = "''weightValue''"] cast_fontMaster_doc by simp
  from w x f cast_small cast_fontMaster_doc show ?thesis by simp
qed












text \<open>
  C10. A cast of a dictionary that succeeds returns a dictionary in which every key that
  is not a key of the schema (the given one, or that of the registry when none is given)
  is as before: absent if it was absent, and with the same value otherwise.
\<close>

theorem cast_data_frame:
  "cast_data (VDict kvs) types = Inr d \<longrightarrow>
     (\<exists>kvs'. d = VDict kvs' \<and>
        (\<forall>key. key \<notin> fst ` set (case types of None \<Rightarrow> get_type_structure | Some t \<Rightarrow> t) \<longrightarrow>
               map_of kvs' key = map_of kvs key))"
  unfolding cast_data_def
  using cast_fields_dict cast_fields_frame by blast

lemma cast_frame_doc:
  "cast_data (VDict [(''foo'', VStr ''bar''), (''versionMinor'', VStr ''3'')]) None =
   Inr (VDict [(''foo'', VStr ''bar''), (''versionMinor'', VInt 3)])"
  by code_simp

lemma foo_not_in_schema: "''foo'' \<notin> fst ` set get_type_structure"
  by (simp add: get_type_structure_def)

theorem cast_data_frame_witness:
  "cast_data (VDict [(''foo'', VStr ''bar''), (''versionMinor'', VStr ''3'')]) None =
     Inr (VDict [(''foo'', VStr ''bar''), (''versionMinor'', VInt 3)])
   \<and> ''foo'' \<notin> fst ` set get_type_structure
   \<and> map_of [(''foo'', VStr ''bar''), (''versionMinor'', VInt 3)] ''foo'' =
       map_of [(''foo'', VStr ''bar''), (''versionMinor'', VStr ''3'')] ''foo''"
  using cast_data_frame [of "[(''foo'', VStr ''bar''), (''versionMinor'', VStr ''3'')]" None
      "VDict [(''foo'', VStr ''bar''), (''versionMinor'', VInt 3)]"]
    cast_frame_doc foo_not_in_schema
  by auto

section \<open>Custom parameters\<close>













section \<open>Kerning\<close>

lemma int_of_string_cases:
  "int_of_string s = (if is_int_string s then Inr (int_value s) else Inl ValueError)"
  by (auto simp: int_of_string_def is_int_string_def int_value_def split: prod.splits)

lemma update_snoc: "map_of kvs key = None \<Longrightarrow>
   AList.update key d (kvs @ [(key, d')]) = kvs @ [(key, d)]"
  by (induction kvs) (auto split: if_splits)

lemma map_of_snoc_other: "k \<noteq> key \<Longrightarrow> map_of (kvs @ [(key, d)]) k = map_of kvs k"
  by (induction kvs) auto

lemma map_of_snoc_same: "map_of kvs key = None \<Longrightarrow> map_of (kvs @ [(key, d)]) key = Some d"
  by (induction kvs) (auto split: if_splits)

lemma kerning_right_result:
  assumes "map_of N m = Some (VDict A)" "map_of A l = Some (VDict acc)"
    and "distinct (map fst gm)" "\<forall>k \<in> fst ` set gm. map_of acc k = None"
  shows "kerning_right m l (leaves_val VStr gm) (VDict N) =
     (if list_all (\<lambda>(r, v). is_int_string v) gm
      then Inr (VDict (AList.update m (VDict (AList.update l
              (VDict (acc @ leaves_val (\<lambda>v. VInt (int_value v)) gm)) A)) N))
      else Inl ValueError)"
  using assms
proof (induction gm arbitrary: N A acc)
  case Nil
  then show ?case
    by (simp add: leaves_val_def update_triv)
next
  case (Cons rv gm)
  obtain r v where rv: "rv = (r, v)" by (cases rv)
  show ?case
  proof (cases "is_int_string v")
    case False
    then show ?thesis
      by (simp add: rv leaves_val_def int_of_string_cases)
  next
    case True
    let ?acc = "acc @ [(r, VInt (int_value v))]"
    let ?A = "AList.update l (VDict ?acc) A"
    let ?N = "AList.update m (VDict ?A) N"
    from Cons.prems(4) have r: "map_of acc r = None" by (simp add: rv)
    have step: "modify (VDict N) m (\<lambda>a. modify a l (\<lambda>b. setitem b r (VInt (int_value v)))) =
                  Inr (VDict ?N)"
      using Cons.prems(1,2) r by (simp add: modify_def update_absent)
    have N: "map_of ?N m = Some (VDict ?A)" by (simp add: update_conv')
    have A: "map_of ?A l = Some (VDict ?acc)" by (simp add: update_conv')
    from Cons.prems(3) have d: "distinct (map fst gm)" and rn: "r \<notin> fst ` set gm"
      by (auto simp: rv)
    from Cons.prems(4) rn have f: "\<forall>k \<in> fst ` set gm. map_of ?acc k = None"
      by (auto simp: rv map_of_snoc_other)
    from Cons.IH [OF N A d f] True step show ?thesis
      by (simp add: rv leaves_val_def int_of_string_cases)
  qed
qed


lemma kerning_left_result:
  assumes "map_of N m = Some (VDict A)"
    and "distinct (map fst mm)" "\<forall>k \<in> fst ` set mm. map_of A k = None"
    and "list_all (\<lambda>(l, gm). distinct (map fst gm)) mm"
  shows "kerning_left m (master_val VStr mm) (VDict N) =
     (if list_all (\<lambda>(l, gm). list_all (\<lambda>(r, v). is_int_string v) gm) mm
      then Inr (VDict (AList.update m (VDict (A @ master_val (\<lambda>v. VInt (int_value v)) mm)) N))
      else Inl ValueError)"
  using assms
proof (induction mm arbitrary: N A)
  case Nil
  then show ?case
    by (simp add: master_val_def update_triv)
next
  case (Cons lg mm)
  obtain l gm where lg: "lg = (l, gm)" by (cases lg)
  let ?A1 = "A @ [(l, VDict [])]"
  let ?N1 = "AList.update m (VDict ?A1) N"
  from Cons.prems(3) have l: "map_of A l = None" by (simp add: lg)
  have step: "modify (VDict N) m (\<lambda>a. setitem a l (VDict [])) = Inr (VDict ?N1)"
    using Cons.prems(1) l by (simp add: modify_def update_absent)
  have N1: "map_of ?N1 m = Some (VDict ?A1)" by (simp add: update_conv')
  have A1: "map_of ?A1 l = Some (VDict [])" using l by (rule map_of_snoc_same)
  from Cons.prems(4) have dg: "distinct (map fst gm)" by (simp add: lg)
  note right = kerning_right_result [OF N1 A1 dg, simplified]
  show ?case
  proof (cases "list_all (\<lambda>(r, v). is_int_string v) gm")
    case False
    with step right show ?thesis
      by (simp add: lg master_val_def)
  next
    case True
    let ?A2 = "A @ [(l, VDict (leaves_val (\<lambda>v. VInt (int_value v)) gm))]"
    let ?N2 = "AList.update m (VDict ?A2) N"
    from True right l
    have r2: "kerning_right m l (leaves_val VStr gm) (VDict ?N1) = Inr (VDict ?N2)"
      by (simp add: update_snoc)
    have N2: "map_of ?N2 m = Some (VDict ?A2)" by (simp add: update_conv')
    from Cons.prems(2) have d: "distinct (map fst mm)" and ln: "l \<notin> fst ` set mm"
      by (auto simp: lg)
    from Cons.prems(3) ln have f: "\<forall>k \<in> fst ` set mm. map_of ?A2 k = None"
      by (auto simp: lg map_of_snoc_other)
    from Cons.prems(4) have g: "list_all (\<lambda>(l, gm). distinct (map fst gm)) mm"
      by (simp add: lg)
    from Cons.IH [OF N2 d f g] True step r2 show ?thesis
      by (simp add: lg master_val_def)
  qed
qed

lemma kerning_master_result:
  assumes "distinct (map fst g)" "\<forall>k \<in> fst ` set g. map_of N k = None"
    and "list_all (\<lambda>(m, mm). distinct (map fst mm) \<and>
                  list_all (\<lambda>(l, gm). distinct (map fst gm)) mm) g"
  shows "kerning_master (map (\<lambda>(m, mm). (m, VDict (master_val VStr mm))) g) (VDict N) =
     (if list_all (\<lambda>(m, mm). list_all (\<lambda>(l, gm). list_all (\<lambda>(r, v). is_int_string v) gm) mm) g
      then Inr (VDict (N @ map (\<lambda>(m, mm). (m, VDict (master_val (\<lambda>v. VInt (int_value v)) mm))) g))
      else Inl ValueError)"
  using assms
proof (induction g arbitrary: N)
  case Nil
  then show ?case by simp
next
  case (Cons mg g)
  obtain m mm where mg: "mg = (m, mm)" by (cases mg)
  let ?N1 = "N @ [(m, VDict [])]"
  from Cons.prems(2) have m: "map_of N m = None" by (simp add: mg)
  have N1: "map_of ?N1 m = Some (VDict [])" using m by (rule map_of_snoc_same)
  from Cons.prems(3) have dm: "distinct (map fst mm)"
    and dl: "list_all (\<lambda>(l, gm). distinct (map fst gm)) mm" by (simp_all add: mg)
  note left = kerning_left_result [OF N1 dm _ dl, simplified]
  show ?case
  proof (cases "list_all (\<lambda>(l, gm). list_all (\<lambda>(r, v). is_int_string v) gm) mm")
    case False
    with left m show ?thesis
      by (simp add: mg update_absent)
  next
    case True
    let ?N2 = "N @ [(m, VDict (master_val (\<lambda>v. VInt (int_value v)) mm))]"
    from True left m
    have l2: "kerning_left m (master_val VStr mm) (VDict ?N1) = Inr (VDict ?N2)"
      by (simp add: update_snoc)
    from Cons.prems(1) have d: "distinct (map fst g)" and mn: "m \<notin> fst ` set g"
      by (auto simp: mg)
    from Cons.prems(2) mn have f: "\<forall>k \<in> fst ` set g. map_of ?N2 k = None"
      by (auto simp: mg map_of_snoc_other)
    from Cons.prems(3) have r: "list_all (\<lambda>(m, mm). distinct (map fst mm) \<and>
                  list_all (\<lambda>(l, gm). distinct (map fst gm)) mm) g"
      by (simp add: mg)
    from Cons.IH [OF d f r] True l2 m show ?thesis
      by (simp add: mg update_absent)
  qed
qed

lemma all_leaves:
  "list_all (\<lambda>(m, mm). list_all (\<lambda>(l, gm). list_all (\<lambda>(r, v). P v) gm) mm) g \<longleftrightarrow>
   list_all P (grid_leaves g)"
  by (auto simp: grid_leaves_def list_all_iff) force+

lemma kerning_result:
  assumes "distinct_keys g"
  shows "kerning (grid_val VStr g) =
     (if list_all is_int_string (grid_leaves g)
      then Inr (grid_val (\<lambda>v. VInt (int_value v)) g) else Inl ValueError)"
  using kerning_master_result [of g "[]"] assms
  by (simp add: kerning_def grid_val_def distinct_keys_def all_leaves)

lemma kerning_example:
  "kerning (VDict [(''m1'', VDict [(''A'', VDict [(''B'', VStr ''10'')])])]) =
     Inr (VDict [(''m1'', VDict [(''A'', VDict [(''B'', VInt 10)])])])"
  by code_simp

text \<open>
  C7. For a grid of strings whose keys are distinct at every level, as those of
  dictionaries are, \<^verbatim>\<open>kerning\<close> returns the grid with the same keys in the same order at
  every level and every leaf replaced by its int value when every leaf is a string that
  \<^verbatim>\<open>int\<close> accepts, and fails with a \<^verbatim>\<open>ValueError\<close> when some leaf is not;
  \<^verbatim>\<open>{"m1": {"A": {"B": "10"}}}\<close> becomes \<^verbatim>\<open>{"m1": {"A": {"B": 10}}}\<close>.
\<close>

theorem kerning_casts_grid:
  "(distinct_keys g \<longrightarrow>
      kerning (grid_val VStr g) =
        (if list_all is_int_string (grid_leaves g)
         then Inr (grid_val (\<lambda>v. VInt (int_value v)) g) else Inl ValueError))
   \<and> kerning (VDict [(''m1'', VDict [(''A'', VDict [(''B'', VStr ''10'')])])]) =
       Inr (VDict [(''m1'', VDict [(''A'', VDict [(''B'', VInt 10)])])])"
  using kerning_result [of g] kerning_example by blast

lemma grid_example:
  "distinct_keys [(''m1'', [(''A'', [(''B'', ''10''), (''C'', ''-5'')])]), (''m2'', [])]
   \<and> list_all is_int_string
       (grid_leaves [(''m1'', [(''A'', [(''B'', ''10''), (''C'', ''-5'')])]), (''m2'', [])])
   \<and> grid_val VStr [(''m1'', [(''A'', [(''B'', ''10''), (''C'', ''-5'')])]), (''m2'', [])] =
       VDict [(''m1'', VDict [(''A'', VDict [(''B'', VStr ''10''), (''C'', VStr ''-5'')])]),
              (''m2'', VDict [])]
   \<and> grid_val (\<lambda>v. VInt (int_value v))
         [(''m1'', [(''A'', [(''B'', ''10''), (''C'', ''-5'')])]), (''m2'', [])] =
       VDict [(''m1'', VDict [(''A'', VDict [(''B'', VInt 10), (''C'', VInt (- 5))])]),
              (''m2'', VDict [])]"
  by code_simp

lemma grid_bad_example:
  "distinct_keys [(''m1'', [(''A'', [(''B'', ''1.5'')])])]
   \<and> \<not> list_all is_int_string (grid_leaves [(''m1'', [(''A'', [(''B'', ''1.5'')])])])
   \<and> grid_val VStr [(''m1'', [(''A'', [(''B'', ''1.5'')])])] =
       VDict [(''m1'', VDict [(''A'', VDict [(''B'', VStr ''1.5'')])])]"
  by code_simp

theorem kerning_casts_grid_witness:
  "distinct_keys [(''m1'', [(''A'', [(''B'', ''10''), (''C'', ''-5'')])]), (''m2'', [])]
   \<and> kerning (VDict [(''m1'', VDict [(''A'', VDict [(''B'', VStr ''10''), (''C'', VStr ''-5'')])]),
                     (''m2'', VDict [])]) =
       Inr (VDict [(''m1'', VDict [(''A'', VDict [(''B'', VInt 10), (''C'', VInt (- 5))])]),
                   (''m2'', VDict [])])
   \<and> distinct_keys [(''m1'', [(''A'', [(''B'', ''1.5'')])])]
   \<and> kerning (VDict [(''m1'', VDict [(''A'', VDict [(''B'', VStr ''1.5'')])])]) = Inl ValueError"
  using kerning_casts_grid [of "[(''m1'', [(''A'', [(''B'', ''10''), (''C'', ''-5'')])]), (''m2'', [])]"]
    kerning_casts_grid [of "[(''m1'', [(''A'', [(''B'', ''1.5'')])])]"]
    grid_example grid_bad_example
  by simp

end
